theory Spec2Isabelle
  imports Complex_Main "HOL-Library.Sublist" "HOL-Library.Multiset"
    "HOL-Library.Code_Target_Numeral"
begin

section \<open>Audio-Transcriber: the transcription route of the server\<close>

text \<open>
  The development embeds the transcription route of the server (the file with
  \<^verbatim>\<open>app.post('/transcribe', ...)\<close>, \<^verbatim>\<open>calculateOptimalChunkDuration\<close>,
  \<^verbatim>\<open>verifyAndResplitChunks\<close> and \<^verbatim>\<open>splitAndProcessAudioFile\<close>).
  JavaScript numbers are modelled by exact numbers: byte counts and counters by \<^typ>\<open>nat\<close>,
  durations by \<^typ>\<open>real\<close>. The rounding of IEEE doubles is not modelled; the places where a
  double would be \<^verbatim>\<open>NaN\<close> or infinite are written out as separate branches.
\<close>

subsection \<open>Constants\<close>

definition MB :: nat where
  "MB = 1024 * 1024"

definition OPENAI_WHISPER_LIMIT :: nat where
  "OPENAI_WHISPER_LIMIT = 25 * MB"

definition OPTIMAL_CHUNK_SIZE :: nat where
  "OPTIMAL_CHUNK_SIZE = 24 * MB"

definition MIN_CHUNK_DURATION :: int where
  "MIN_CHUNK_DURATION = 120"

definition MAX_CHUNK_DURATION :: int where
  "MAX_CHUNK_DURATION = 1800"

definition MAX_CONCURRENT_CHUNKS :: nat where
  "MAX_CONCURRENT_CHUNKS = 3"

subsection \<open>The chunk-duration planner\<close>

text \<open>
  \<^verbatim>\<open>calculateOptimalChunkDuration(fileSize, fileDuration)\<close>. The result \<open>None\<close> stands for
  \<^verbatim>\<open>NaN\<close>, which the source returns for \<^verbatim>\<open>0 / 0\<close> (\<^verbatim>\<open>Math.floor\<close>, \<^verbatim>\<open>Math.min\<close> and
  \<^verbatim>\<open>Math.max\<close> all propagate it). A zero duration makes the bitrate infinite and the optimal
  duration \<open>0\<close>; a zero size makes the bitrate zero and the optimal duration infinite (of the
  sign of the duration), which \<^verbatim>\<open>Math.min(1800, _)\<close> cuts to \<open>1800\<close>. The clamp uses the
  constant \<^verbatim>\<open>MIN_CHUNK_DURATION\<close> below and the literal \<open>1800\<close> above, as the source does.
\<close>

definition calculateOptimalChunkDuration :: "nat \<Rightarrow> real \<Rightarrow> int option" where
  "calculateOptimalChunkDuration fileSize fileDuration =
    (if fileSize = 0 \<and> fileDuration = 0 then None
     else if fileDuration = 0 then Some (max MIN_CHUNK_DURATION (min 1800 0))
     else if fileSize = 0 then
       (if 0 < fileDuration then Some (max MIN_CHUNK_DURATION 1800)
        else Some MIN_CHUNK_DURATION)
     else
       (let estimatedBitrate = real fileSize / fileDuration;
            targetChunkSize = 24 * MB;
            optimalDuration = \<lfloor>real targetChunkSize / estimatedBitrate\<rfloor>;
            clampedDuration = max MIN_CHUNK_DURATION (min 1800 optimalDuration)
        in Some clampedDuration))"

subsection \<open>The route \<^verbatim>\<open>POST /transcribe\<close>\<close>

text \<open>
  \<^verbatim>\<open>req.file\<close> as multer fills it in; the three fields the handler reads.
\<close>

record upload_file =
  file_path :: string
  file_size :: nat
  file_originalname :: string

text \<open>
  The JSON bodies the handler sends, and the effects of the small-file path in the order
  in which they happen. The disk is the set of paths that exist in the upload directory.
  The transcription service is a parameter: for a path it either throws (\<open>Inl\<close> the
  error's message) or returns the text. \<^verbatim>\<open>saveTranscription\<close> catches its own errors and
  returns a file name or \<^verbatim>\<open>null\<close>; its result is a parameter as well.
\<close>

datatype json_body =
    ErrorBody string
  | SuccessBody string "string option"
  | FailureBody string

datatype effect =
    SaveTranscription string string
  | Unlink string
  | Respond nat json_body

datatype handled =
    SingleRequest "effect list" "string set"
  | HandleLargeFile upload_file

fun isRespond :: "effect \<Rightarrow> bool" where
  "isRespond (Respond _ _) = True"
| "isRespond _ = False"

text \<open>
  The \<^verbatim>\<open>try\<close> block of the handler. \<^verbatim>\<open>error.message || 'Failed to transcribe audio'\<close>
  replaces an empty message by the default text.
\<close>

definition messageOrDefault :: "string \<Rightarrow> string" where
  "messageOrDefault message = (if message = [] then ''Failed to transcribe audio'' else message)"

definition transcribeSmallFile ::
  "(string \<Rightarrow> string + string) \<Rightarrow> string option \<Rightarrow> upload_file \<Rightarrow> string set
    \<Rightarrow> effect list \<times> string set" where
  "transcribeSmallFile whisper savedFilename file disk =
    (let filePath = file_path file in
     if filePath \<notin> disk then
       ([Respond 500 (FailureBody
          (messageOrDefault (''File does not exist at path: '' @ filePath)))], disk)
     else
       (case whisper filePath of
          Inl message \<Rightarrow> ([Respond 500 (FailureBody (messageOrDefault message))], disk)
        | Inr text \<Rightarrow>
            ([SaveTranscription text (file_originalname file),
              Unlink filePath,
              Respond 200 (SuccessBody text savedFilename)],
             disk - {filePath})))"

definition postTranscribe ::
  "(string \<Rightarrow> string + string) \<Rightarrow> string option \<Rightarrow> upload_file option \<Rightarrow> string set
    \<Rightarrow> handled" where
  "postTranscribe whisper savedFilename reqFile disk =
    (case reqFile of
       None \<Rightarrow> SingleRequest [Respond 400 (ErrorBody ''No file uploaded'')] disk
     | Some file \<Rightarrow>
         if file_size file > OPENAI_WHISPER_LIMIT then HandleLargeFile file
         else (case transcribeSmallFile whisper savedFilename file disk of
                 (effects, disk') \<Rightarrow> SingleRequest effects disk'))"

subsection \<open>Strings and file names\<close>

text \<open>
  The string methods the route uses on file names, and the decimal rendering of a number
  inside a template literal. \<open>showNat\<close> is \<^verbatim>\<open>String(n)\<close> for a natural number;
  \<open>padStart3\<close> is \<^verbatim>\<open>padStart(3, '0')\<close>, which is also what the \<^verbatim>\<open>%03d\<close> of the
  split tool's output pattern prints.
\<close>

definition startsWith :: "string \<Rightarrow> string \<Rightarrow> bool" where
  "startsWith s p = prefix p s"

definition endsWith :: "string \<Rightarrow> string \<Rightarrow> bool" where
  "endsWith s p = suffix p s"

definition includesStr :: "string \<Rightarrow> string \<Rightarrow> bool" where
  "includesStr s p = sublist p s"

definition digitChar :: "nat \<Rightarrow> char" where
  "digitChar n = ''0123456789'' ! n"

function showNat :: "nat \<Rightarrow> string" where
  "showNat n = (if n < 10 then [digitChar n] else showNat (n div 10) @ [digitChar (n mod 10)])"
  by pat_completeness auto
termination
  by (relation "measure id") auto

declare showNat.simps [simp del]

definition padStart3 :: "string \<Rightarrow> string" where
  "padStart3 s = replicate (3 - length s) CHR ''0'' @ s"

text \<open>
  \<^verbatim>\<open>path.basename(file, ext)\<close> for a name without directory part: the extension is removed
  when the name ends with it.
\<close>

definition basename :: "string \<Rightarrow> string \<Rightarrow> string" where
  "basename name ext =
    (if ext \<noteq> [] \<and> suffix ext name then take (length name - length ext) name else name)"

subsection \<open>The oversize repair: \<^verbatim>\<open>verifyAndResplitChunks\<close>\<close>

text \<open>
  The chunks directory is the list of its entries, a file name with its byte size, in the
  order in which \<^verbatim>\<open>readdirSync\<close> lists them; \<^verbatim>\<open>statSync\<close> of a listed name is the size
  of its entry. The operations on it that the repair performs are recorded in a trace.
  The environment supplies the two things the code does not compute: the split tool (for
  an input file of a given size and a segment time it fails with a message or writes
  pieces of the given sizes, numbered from 0) and the stream of identifiers that
  \<^verbatim>\<open>uuidv4()\<close> returns.
\<close>

type_synonym directory = "(string \<times> nat) list"

datatype fs_op =
    FfmpegSegment string int
  | UnlinkSync string
  | RenameSync string string

record repair_environment =
  ffmpegSegment :: "string \<Rightarrow> nat \<Rightarrow> int \<Rightarrow> string + nat list"
  uuidv4 :: "nat \<Rightarrow> string"

record options =
  sessionId :: string
  outputExt :: string
  segmentDuration :: int

record repair_state =
  chunksDir :: directory
  fsTrace :: "fs_op list"
  uuidCount :: nat

datatype repair_result = Resolved | Rejected string

fun writeFile :: "directory \<Rightarrow> string \<Rightarrow> nat \<Rightarrow> directory" where
  "writeFile [] name sz = [(name, sz)]"
| "writeFile ((m, s) # d) name sz =
    (if m = name then (name, sz) # d else (m, s) # writeFile d name sz)"

definition unlinkSync :: "directory \<Rightarrow> string \<Rightarrow> directory" where
  "unlinkSync d name = filter (\<lambda>(m, s). m \<noteq> name) d"

text \<open>
  \<^verbatim>\<open>fs.renameSync\<close> throws when the old name does not exist (\<open>None\<close>) and replaces
  an existing file of the new name.
\<close>

definition renameSync :: "directory \<Rightarrow> string \<Rightarrow> string \<Rightarrow> directory option" where
  "renameSync d old new =
    (case map_of d old of
       None \<Rightarrow> None
     | Some sz \<Rightarrow>
         if old = new then Some d
         else Some (map (\<lambda>(m, s). if m = old then (new, s) else (m, s))
                 (filter (\<lambda>(m, s). m \<noteq> new) d)))"

fun writeSegments :: "directory \<Rightarrow> string \<Rightarrow> string \<Rightarrow> nat \<Rightarrow> nat list \<Rightarrow> directory" where
  "writeSegments d base ext i [] = d"
| "writeSegments d base ext i (sz # szs) =
    writeSegments (writeFile d (base @ ''-sub-'' @ padStart3 (showNat i) @ ext) sz)
      base ext (Suc i) szs"

text \<open>
  The \<^verbatim>\<open>for\<close> loop over the oversized files. Each file is handed to the split tool
  with \<^verbatim>\<open>newSegmentDuration = Math.max(1, Math.floor(segmentDuration / 2))\<close>, where
  \<^verbatim>\<open>segmentDuration\<close> is read from the options; when the tool ends, the oversized file is
  unlinked; when it fails, the loop is left with the error. The size of the input is the
  one that the scan has read.
\<close>

fun resplitOversized ::
  "repair_environment \<Rightarrow> options \<Rightarrow> (string \<times> nat) list \<Rightarrow> repair_state
    \<Rightarrow> string option \<times> repair_state" where
  "resplitOversized env opts [] st = (None, st)"
| "resplitOversized env opts ((name, sz) # files) st =
    (let newSegmentDuration = max 1 (segmentDuration opts div 2);
         st1 = st\<lparr>fsTrace := fsTrace st @ [FfmpegSegment name newSegmentDuration]\<rparr>
     in case ffmpegSegment env name sz newSegmentDuration of
          Inl err \<Rightarrow> (Some err, st1)
        | Inr pieces \<Rightarrow>
            resplitOversized env opts files
              (st1\<lparr>chunksDir := unlinkSync
                      (writeSegments (chunksDir st1) (basename name (outputExt opts))
                         (outputExt opts) 0 pieces) name,
                    fsTrace := fsTrace st1 @ [UnlinkSync name]\<rparr>))"

text \<open>
  The second loop renames every file of the directory whose name includes \<^verbatim>\<open>-sub-\<close>
  to \<^verbatim>\<open>${sessionId}-chunk-${uuidv4().substring(0, 8)}${outputExt}\<close>.
\<close>

fun renameSubChunks ::
  "repair_environment \<Rightarrow> options \<Rightarrow> string list \<Rightarrow> repair_state
    \<Rightarrow> string option \<times> repair_state" where
  "renameSubChunks env opts [] st = (None, st)"
| "renameSubChunks env opts (subChunk # subChunks) st =
    (let newName = sessionId opts @ ''-chunk-'' @ take 8 (uuidv4 env (uuidCount st))
                     @ outputExt opts;
         st1 = st\<lparr>uuidCount := Suc (uuidCount st),
                  fsTrace := fsTrace st @ [RenameSync subChunk newName]\<rparr>
     in case renameSync (chunksDir st) subChunk newName of
          None \<Rightarrow> (Some (''ENOENT: no such file or directory, rename '' @ subChunk), st1)
        | Some d \<Rightarrow> renameSubChunks env opts subChunks (st1\<lparr>chunksDir := d\<rparr>))"

definition isSessionChunk :: "options \<Rightarrow> string \<Rightarrow> bool" where
  "isSessionChunk opts name \<longleftrightarrow>
     startsWith name (sessionId opts @ ''-chunk-'') \<and> endsWith name (outputExt opts)"

definition oversizedFiles :: "options \<Rightarrow> directory \<Rightarrow> (string \<times> nat) list" where
  "oversizedFiles opts d =
     filter (\<lambda>(name, sz). sz > OPENAI_WHISPER_LIMIT)
       (filter (\<lambda>(name, sz). isSessionChunk opts name) d)"

text \<open>
  \<^verbatim>\<open>verifyAndResplitChunks(options)\<close> calls itself with the same \<^verbatim>\<open>options\<close> after
  every pass, and nothing in the source bounds the number of passes. The model counts them:
  the first argument is the number of calls allowed, and a first component \<open>None\<close> of the
  result says that the function has not returned within them; the state is then the one
  reached so far.
\<close>

fun verifyAndResplitChunks ::
  "nat \<Rightarrow> repair_environment \<Rightarrow> options \<Rightarrow> repair_state
    \<Rightarrow> repair_result option \<times> repair_state" where
  "verifyAndResplitChunks 0 env opts st = (None, st)"
| "verifyAndResplitChunks (Suc fuel) env opts st =
    (if length (oversizedFiles opts (chunksDir st)) = 0 then (Some Resolved, st)
     else
       (case resplitOversized env opts (oversizedFiles opts (chunksDir st)) st of
          (Some err, st1) \<Rightarrow> (Some (Rejected err), st1)
        | (None, st1) \<Rightarrow>
            (case renameSubChunks env opts
                    (filter (\<lambda>f. includesStr f ''-sub-'') (map fst (chunksDir st1))) st1 of
               (Some err, st2) \<Rightarrow> (Some (Rejected err), st2)
             | (None, st2) \<Rightarrow> verifyAndResplitChunks fuel env opts st2)))"

text \<open>
  What a trace entry has to satisfy for the repair to have split at half the planned
  duration.
\<close>

fun splitsAtHalf :: "options \<Rightarrow> fs_op \<Rightarrow> bool" where
  "splitsAtHalf opts (FfmpegSegment name t) \<longleftrightarrow> t = max 1 (segmentDuration opts div 2)"
| "splitsAtHalf opts _ \<longleftrightarrow> True"

text \<open>
  A sample environment for the examples: a split tool that cuts a file of constant bitrate
  exactly every \<open>t\<close> seconds, and identifiers that differ in their eighth character.
\<close>

function cutEvery :: "nat \<Rightarrow> nat \<Rightarrow> nat list" where
  "cutEvery piece sz =
    (if piece = 0 \<or> sz \<le> piece then [sz] else piece # cutEvery piece (sz - piece))"
  by pat_completeness auto
termination
  by (relation "measure snd") auto

declare cutEvery.simps [simp del]

definition hexChar :: "nat \<Rightarrow> char" where
  "hexChar n = ''0123456789abcdef'' ! n"

definition uniformSplitTool :: "nat \<Rightarrow> repair_environment" where
  "uniformSplitTool bytesPerSecond =
    \<lparr>ffmpegSegment = (\<lambda>name sz t. Inr (cutEvery (nat t * bytesPerSecond) sz)),
     uuidv4 = (\<lambda>k. ''a0b1c2d'' @ [hexChar (k mod 16)] @ ''-0000-4000-8000-000000000000'')\<rparr>"

subsection \<open>A directory on which the repair makes no progress\<close>

text \<open>
  The options of a session whose planned duration is the lower clamp bound, and the
  directories that consist of chunks of that session of 69 120 000 bytes each, one minute
  of a file of 1 152 000 bytes per second. \<open>segmentTimes\<close> reads off a trace the segment
  times that were requested from the split tool.
\<close>

definition stuckOpts :: options where
  "stuckOpts = \<lparr>sessionId = ''s1'', outputExt = ''.m4a'', segmentDuration = 120\<rparr>"

definition allOversized :: "nat \<Rightarrow> directory \<Rightarrow> bool" where
  "allOversized sz d \<longleftrightarrow> d \<noteq> [] \<and> distinct (map fst d) \<and> (\<forall>e \<in> set d. snd e = sz)"

definition stuck :: "directory \<Rightarrow> bool" where
  "stuck d \<longleftrightarrow> allOversized 69120000 d
     \<and> (\<forall>e \<in> set d. isSessionChunk stuckOpts (fst e) \<and> \<not> includesStr (fst e) ''-sub-'')"

fun segmentTimes :: "fs_op list \<Rightarrow> int list" where
  "segmentTimes [] = []"
| "segmentTimes (FfmpegSegment name t # ops) = t # segmentTimes ops"
| "segmentTimes (_ # ops) = segmentTimes ops"

subsection \<open>The response stream\<close>

text \<open>
  The objects written to the chunked response: a \<^verbatim>\<open>processing\<close> event with its message
  and progress, the final \<^verbatim>\<open>complete\<close> event with the transcription, and the final
  \<^verbatim>\<open>error\<close> event with the error text. A progress of \<open>None\<close> is a number that is not
  finite, which \<^verbatim>\<open>JSON.stringify\<close> prints as \<^verbatim>\<open>null\<close>.
\<close>

datatype stream_event =
    ProcessingEvent string "int option"
  | CompleteEvent string int
  | ErrorEvent string int

fun progressOf :: "stream_event \<Rightarrow> int option" where
  "progressOf (ProcessingEvent message progress) = progress"
| "progressOf (CompleteEvent transcription progress) = Some progress"
| "progressOf (ErrorEvent message progress) = Some progress"





subsection \<open>The worker pool: \<^verbatim>\<open>processChunks\<close>\<close>

text \<open>
  The state of one call of \<^verbatim>\<open>processChunks\<close>. The first six fields are the variables
  of the closure. A chunk is identified with the number that
  \<^verbatim>\<open>parseInt(name.match(/chunk-(\d+)/)[1])\<close> reads from its file name, so a queue entry
  \<^verbatim>\<open>{path, index}\<close> is that number; a name in which the pattern finds no digits makes
  the callback of the watcher throw and is outside this model. The other fields are the
  part of the event loop
  and of the request that the closure acts on: whether the \<^verbatim>\<open>setInterval\<close> timer is
  armed, whether the split tool is still running, the calls of \<^verbatim>\<open>processChunk\<close> that
  are suspended at their \<^verbatim>\<open>await\<close>, the promise that \<^verbatim>\<open>splitAndProcessAudioFile\<close>
  returned, and the response with what has been written to it.
\<close>

datatype settled = Pending | ResolvedWith string | RejectedWith string

record pool_state =
  transcriptionResults :: "nat \<rightharpoonup> string"
  totalChunks :: nat
  processedChunks :: nat
  chunksBeingProcessed :: nat
  isSplittingComplete :: bool
  chunkQueue :: "nat list"
  chunkWatcher :: bool
  splitRunning :: bool
  inFlight :: "nat list"
  promise :: settled
  res :: "stream_event list"
  resEnded :: bool

text \<open>
  What the environment answers: the size of the file of a chunk (\<open>None\<close> when
  \<^verbatim>\<open>statSync\<close> throws), and the outcome of the call of the transcription service for a
  chunk at a given attempt, the error's message or the text.
\<close>

record pool_environment =
  statSync :: "nat \<Rightarrow> nat option"
  createTranscription :: "nat \<Rightarrow> nat \<Rightarrow> string + string"

text \<open>
  \<^verbatim>\<open>Math.floor(20 + (processedChunks / totalChunks) * 70)\<close>. With no chunk discovered the
  quotient is \<^verbatim>\<open>NaN\<close> or infinite.
\<close>

definition progressPercent :: "nat \<Rightarrow> nat \<Rightarrow> int option" where
  "progressPercent processed discovered =
    (if discovered = 0 then None
     else Some \<lfloor>20 + (real processed / real discovered) * 70\<rfloor>)"

text \<open>
  \<^verbatim>\<open>res.write\<close> and \<^verbatim>\<open>res.end\<close>. What is written after the response has ended does
  not reach the client and is not part of the stream.
\<close>

definition resWrite :: "stream_event \<Rightarrow> pool_state \<Rightarrow> pool_state" where
  "resWrite e s = (if resEnded s then s else s\<lparr>res := res s @ [e]\<rparr>)"

definition resEnd :: "stream_event \<Rightarrow> pool_state \<Rightarrow> pool_state" where
  "resEnd e s = (if resEnded s then s else s\<lparr>res := res s @ [e], resEnded := True\<rparr>)"

text \<open>
  \<^verbatim>\<open>Array.prototype.join\<close>, and the loop of \<^verbatim>\<open>checkCompletion\<close> that collects
  \<^verbatim>\<open>transcriptionResults[i]\<close> for \<^verbatim>\<open>i\<close> below \<^verbatim>\<open>totalChunks\<close>: the test
  \<^verbatim>\<open>if (transcriptionResults[i])\<close> skips an index without result and also a result
  that is the empty string.
\<close>

fun joinWith :: "string \<Rightarrow> string list \<Rightarrow> string" where
  "joinWith sep [] = []"
| "joinWith sep [x] = x"
| "joinWith sep (x # y # ys) = x @ sep @ joinWith sep (y # ys)"

fun combinedResults :: "(nat \<rightharpoonup> string) \<Rightarrow> nat list \<Rightarrow> string list" where
  "combinedResults results [] = []"
| "combinedResults results (i # is) =
    (case results i of
       None \<Rightarrow> combinedResults results is
     | Some text \<Rightarrow> if text = [] then combinedResults results is
                    else text # combinedResults results is)"

text \<open>
  \<^verbatim>\<open>checkCompletion\<close>. Resolving a promise that is already settled has no effect.
\<close>

definition checkCompletion :: "pool_state \<Rightarrow> pool_state" where
  "checkCompletion s =
    (if isSplittingComplete s \<and> processedChunks s = totalChunks s then
       (if promise s = Pending then
          s\<lparr>promise := ResolvedWith
               (joinWith '' '' (combinedResults (transcriptionResults s) [0..<totalChunks s]))\<rparr>
        else s)
     else s)"

text \<open>
  The retry loop of \<^verbatim>\<open>processChunk\<close>: \<^verbatim>\<open>while (retryCount <= maxRetries)\<close>, leaving
  with the text at the first success and rethrowing the error of the attempt that makes
  \<^verbatim>\<open>retryCount\<close> exceed \<^verbatim>\<open>maxRetries\<close>. Were the loop left by its condition,
  \<^verbatim>\<open>transcription\<close> would be undefined and reading its \<^verbatim>\<open>text\<close> would throw.
\<close>

definition maxRetries :: nat where
  "maxRetries = 2"

function transcribeWithRetry :: "(nat \<Rightarrow> string + string) \<Rightarrow> nat \<Rightarrow> string + string" where
  "transcribeWithRetry create retryCount =
    (if retryCount \<le> maxRetries then
       (case create retryCount of
          Inr text \<Rightarrow> Inr text
        | Inl apiError \<Rightarrow>
            if Suc retryCount > maxRetries then Inl apiError
            else transcribeWithRetry create (Suc retryCount))
     else Inl ''Cannot read properties of undefined (reading 'text')'')"
  by pat_completeness auto
termination
  by (relation "measure (\<lambda>(create, retryCount). Suc maxRetries - retryCount)") auto

declare transcribeWithRetry.simps [simp del]

text \<open>
  The checks of the chunk file before the first call of the service; the result is the
  message of the error thrown, if any (the message of \<^verbatim>\<open>statSync\<close> without the path).
\<close>

definition validateChunk :: "(nat \<Rightarrow> nat option) \<Rightarrow> nat \<Rightarrow> string option" where
  "validateChunk stat chunkIndex =
    (case stat chunkIndex of
       None \<Rightarrow> Some ''ENOENT: no such file or directory''
     | Some sz \<Rightarrow>
         if sz = 0 then Some ''Chunk file is empty''
         else if sz > 25 * 1024 * 1024 then Some ''Chunk file exceeds 25MB limit''
         else None)"

text \<open>
  The pieces of \<^verbatim>\<open>processChunk\<close>: its first two statements, the end of its \<^verbatim>\<open>try\<close>
  block, its \<^verbatim>\<open>catch\<close> block, the suspension at \<^verbatim>\<open>await\<close>, and the decrement that
  opens its \<^verbatim>\<open>finally\<close> block.
\<close>

definition processChunkBegin :: "nat \<Rightarrow> pool_state \<Rightarrow> pool_state" where
  "processChunkBegin chunkIndex s =
    resWrite (ProcessingEvent
        (''Transcribing chunk '' @ showNat (chunkIndex + 1) @ '' of ''
           @ showNat (totalChunks s) @ ''...'')
        (progressPercent (processedChunks s) (totalChunks s)))
      (s\<lparr>chunksBeingProcessed := chunksBeingProcessed s + 1\<rparr>)"

definition recordSuccess :: "nat \<Rightarrow> string \<Rightarrow> pool_state \<Rightarrow> pool_state" where
  "recordSuccess chunkIndex text s =
    (let s1 = s\<lparr>transcriptionResults := (transcriptionResults s)(chunkIndex \<mapsto> text),
                 processedChunks := processedChunks s + 1\<rparr>
     in resWrite (ProcessingEvent
          (''Completed '' @ showNat (processedChunks s1) @ '' of ''
             @ showNat (totalChunks s1) @ '' chunks...'')
          (progressPercent (processedChunks s1) (totalChunks s1))) s1)"

definition errorPlaceholder :: "nat \<Rightarrow> string \<Rightarrow> string" where
  "errorPlaceholder chunkIndex message =
    ''[Error: Chunk '' @ showNat (chunkIndex + 1) @ '' failed to transcribe - ''
      @ message @ '']''"

definition recordFailure :: "nat \<Rightarrow> string \<Rightarrow> pool_state \<Rightarrow> pool_state" where
  "recordFailure chunkIndex message s =
    (let s1 = s\<lparr>transcriptionResults :=
                   (transcriptionResults s)(chunkIndex \<mapsto> errorPlaceholder chunkIndex message),
                 processedChunks := processedChunks s + 1\<rparr>
     in resWrite (ProcessingEvent
          (''Chunk '' @ showNat (chunkIndex + 1)
             @ '' failed, continuing with remaining chunks...'')
          (progressPercent (processedChunks s1) (totalChunks s1))) s1)"

definition awaitTranscription :: "nat \<Rightarrow> pool_state \<Rightarrow> pool_state" where
  "awaitTranscription chunkIndex s = s\<lparr>inFlight := inFlight s @ [chunkIndex]\<rparr>"

definition finallyDecrement :: "pool_state \<Rightarrow> pool_state" where
  "finallyDecrement s = s\<lparr>chunksBeingProcessed := chunksBeingProcessed s - 1\<rparr>"

text \<open>
  \<^verbatim>\<open>checkForMoreChunks\<close>, with the synchronous part of the \<^verbatim>\<open>processChunk\<close> it calls.
  A chunk whose file passes the checks is left suspended at its \<^verbatim>\<open>await\<close> and the
  loop goes on. A chunk whose file fails them runs through \<^verbatim>\<open>catch\<close> and
  \<^verbatim>\<open>finally\<close> before \<^verbatim>\<open>processChunk\<close> returns: \<^verbatim>\<open>finally\<close> calls
  \<^verbatim>\<open>checkForMoreChunks\<close> and \<^verbatim>\<open>checkCompletion\<close>, and then the loop goes on.
\<close>

function checkForMoreChunks :: "(nat \<Rightarrow> nat option) \<Rightarrow> pool_state \<Rightarrow> pool_state" where
  "checkForMoreChunks stat s =
    (case chunkQueue s of
       [] \<Rightarrow> s
     | nextChunk # rest \<Rightarrow>
         if chunksBeingProcessed s < MAX_CONCURRENT_CHUNKS then
           (let s1 = processChunkBegin nextChunk (s\<lparr>chunkQueue := rest\<rparr>) in
            case validateChunk stat nextChunk of
              None \<Rightarrow> checkForMoreChunks stat (awaitTranscription nextChunk s1)
            | Some message \<Rightarrow>
                checkForMoreChunks stat
                  (checkCompletion
                    (checkForMoreChunks stat
                      (finallyDecrement (recordFailure nextChunk message s1)))))
         else s)"
  by pat_completeness auto

lemma chunkQueue_resWrite [simp]: "chunkQueue (resWrite e s) = chunkQueue s"
  by (simp add: resWrite_def)

lemma chunkQueue_checkCompletion [simp]: "chunkQueue (checkCompletion s) = chunkQueue s"
  by (simp add: checkCompletion_def)

lemma chunkQueue_processChunkBegin [simp]: "chunkQueue (processChunkBegin i s) = chunkQueue s"
  by (simp add: processChunkBegin_def)

lemma chunkQueue_recordFailure [simp]: "chunkQueue (recordFailure i m s) = chunkQueue s"
  by (simp add: recordFailure_def Let_def)

lemma chunkQueue_awaitTranscription [simp]: "chunkQueue (awaitTranscription i s) = chunkQueue s"
  by (simp add: awaitTranscription_def)

lemma chunkQueue_finallyDecrement [simp]: "chunkQueue (finallyDecrement s) = chunkQueue s"
  by (simp add: finallyDecrement_def)

lemma chunkQueue_recordSuccess [simp]: "chunkQueue (recordSuccess i m s) = chunkQueue s"
  by (simp add: recordSuccess_def Let_def)

lemma checkForMoreChunks_queue_le:
  "checkForMoreChunks_dom (stat, s) \<Longrightarrow>
     length (chunkQueue (checkForMoreChunks stat s)) \<le> length (chunkQueue s)"
proof (induction stat s rule: checkForMoreChunks.pinduct)
  case (1 stat s)
  show ?case
  proof (cases "chunkQueue s")
    case Nil
    with 1(1) show ?thesis by (simp add: checkForMoreChunks.psimps)
  next
    case (Cons nextChunk rest)
    show ?thesis
    proof (cases "chunksBeingProcessed s < MAX_CONCURRENT_CHUNKS")
      case False
      with 1(1) Cons show ?thesis by (simp add: checkForMoreChunks.psimps)
    next
      case True
      show ?thesis
      proof (cases "validateChunk stat nextChunk")
        case None
        from 1(2) [OF Cons True refl None] 1(1) Cons True None
        show ?thesis by (simp add: checkForMoreChunks.psimps Let_def)
      next
        case (Some message)
        from 1(3) [OF Cons True refl Some] 1(4) [OF Cons True refl Some]
          1(1) Cons True Some
        show ?thesis by (simp add: checkForMoreChunks.psimps Let_def)
      qed
    qed
  qed
qed

termination checkForMoreChunks
proof (relation "measure (\<lambda>(stat, s). length (chunkQueue s))", goal_cases)
  case 1
  show ?case by simp
next
  case (2 stat s nextChunk rest s1)
  then show ?case by simp
next
  case (3 stat s nextChunk rest s1 message)
  then show ?case by simp
next
  case (4 stat s nextChunk rest s1 message)
  from checkForMoreChunks_queue_le [OF 4(5)] 4(1,3)
  show ?case by simp
qed

declare checkForMoreChunks.simps [simp del]

text \<open>
  The rest of \<^verbatim>\<open>finally\<close>, and the continuation of a suspended \<^verbatim>\<open>processChunk\<close>
  when its retry loop is over: the result or the placeholder is stored under the chunk's
  index, the counters move, the progress is written, and \<^verbatim>\<open>finally\<close> runs. Between the
  attempts of the retry loop the call touches no variable of the closure, so the whole
  loop is one step here.
\<close>

definition processChunkFinally :: "(nat \<Rightarrow> nat option) \<Rightarrow> pool_state \<Rightarrow> pool_state" where
  "processChunkFinally stat s =
    checkCompletion (checkForMoreChunks stat (finallyDecrement s))"

definition processChunkSettled :: "pool_environment \<Rightarrow> nat \<Rightarrow> pool_state \<Rightarrow> pool_state" where
  "processChunkSettled env chunkIndex s =
    (if chunkIndex \<notin> set (inFlight s) then s
     else
       (let s1 = s\<lparr>inFlight := remove1 chunkIndex (inFlight s)\<rparr>;
            s2 = (case transcribeWithRetry (createTranscription env chunkIndex) 0 of
                    Inr text \<Rightarrow> recordSuccess chunkIndex text s1
                  | Inl message \<Rightarrow> recordFailure chunkIndex message s1)
        in processChunkFinally (statSync env) s2))"

text \<open>
  The callback of the \<^verbatim>\<open>setInterval\<close> timer. Its argument is the list of the numbers
  of the session's chunk files that \<^verbatim>\<open>readdirSync\<close> returns; the callback sorts them
  and queues the entries from position \<^verbatim>\<open>totalChunks\<close> on.
\<close>

definition watcherTick :: "pool_environment \<Rightarrow> nat list \<Rightarrow> pool_state \<Rightarrow> pool_state" where
  "watcherTick env listing s =
    (if \<not> chunkWatcher s then s
     else if isSplittingComplete s then s\<lparr>chunkWatcher := False\<rparr>
     else
       (let currentChunks = sort listing in
        if length currentChunks > totalChunks s then
          checkForMoreChunks (statSync env)
            (s\<lparr>chunkQueue := chunkQueue s @ drop (totalChunks s) currentChunks,
               totalChunks := length currentChunks\<rparr>)
        else s))"

text \<open>
  The \<^verbatim>\<open>end\<close> and \<^verbatim>\<open>error\<close> handlers of the split tool started by
  \<^verbatim>\<open>processChunks\<close>; the tool emits one of the two events, once.
\<close>

definition splitEnd :: "pool_state \<Rightarrow> pool_state" where
  "splitEnd s =
    (if \<not> splitRunning s then s
     else checkCompletion
            (s\<lparr>splitRunning := False, isSplittingComplete := True, chunkWatcher := False\<rparr>))"

definition splitError :: "string \<Rightarrow> pool_state \<Rightarrow> pool_state" where
  "splitError message s =
    (if \<not> splitRunning s then s
     else
       (let s1 = s\<lparr>splitRunning := False, chunkWatcher := False\<rparr>
        in if promise s1 = Pending then s1\<lparr>promise := RejectedWith message\<rparr> else s1))"

text \<open>
  What \<^verbatim>\<open>handleLargeFile\<close> does once the promise it awaits is settled: on a result, the
  event at 95 and the final \<^verbatim>\<open>complete\<close> event (\<^verbatim>\<open>saveTranscription\<close> and
  \<^verbatim>\<open>cleanupFiles\<close> catch their own errors); on a rejection, the final \<^verbatim>\<open>error\<close> event
  with \<^verbatim>\<open>error.message || 'Failed to process audio file'\<close>. It runs as a microtask,
  right after the handler that settled the promise.
\<close>

definition handleLargeFileSettled :: "pool_state \<Rightarrow> pool_state" where
  "handleLargeFileSettled s =
    (case promise s of
       Pending \<Rightarrow> s
     | ResolvedWith combinedTranscription \<Rightarrow>
         resEnd (CompleteEvent combinedTranscription 100)
           (resWrite (ProcessingEvent ''Transcription complete. Finalizing results...''
              (Some 95)) s)
     | RejectedWith message \<Rightarrow>
         resEnd (ErrorEvent
           (if message = [] then ''Failed to process audio file'' else message) 100) s)"

text \<open>
  The events that the event loop delivers to the closure, one step of the pool for each,
  and a run of the pool over a list of events. An event that cannot occur in a state (a
  tick of a cleared timer, the return of a call that is not suspended, a second end of
  the split tool) leaves the state as it is.
\<close>

datatype pool_event =
    WatcherTick "nat list"
  | TranscriptionSettled nat
  | SplitEnd
  | SplitError string

fun poolStep :: "pool_environment \<Rightarrow> pool_state \<Rightarrow> pool_event \<Rightarrow> pool_state" where
  "poolStep env s (WatcherTick listing) = handleLargeFileSettled (watcherTick env listing s)"
| "poolStep env s (TranscriptionSettled chunkIndex) =
     handleLargeFileSettled (processChunkSettled env chunkIndex s)"
| "poolStep env s SplitEnd = handleLargeFileSettled (splitEnd s)"
| "poolStep env s (SplitError message) = handleLargeFileSettled (splitError message s)"

definition runPool :: "pool_environment \<Rightarrow> pool_event list \<Rightarrow> pool_state \<Rightarrow> pool_state" where
  "runPool env events s = foldl (poolStep env) s events"

text \<open>
  The state in which \<^verbatim>\<open>processChunks\<close> leaves the closure when it returns, given what
  has been written to the response before.
\<close>

definition processChunks :: "stream_event list \<Rightarrow> pool_state" where
  "processChunks written =
    \<lparr>transcriptionResults = Map.empty, totalChunks = 0, processedChunks = 0,
     chunksBeingProcessed = 0, isSplittingComplete = False, chunkQueue = [],
     chunkWatcher = True, splitRunning = True, inFlight = [], promise = Pending,
     res = written, resEnded = False\<rparr>"

subsection \<open>The number of a chunk file\<close>

text \<open>
  The watcher reads the number of a chunk from its file name with
  \<^verbatim>\<open>parseInt(name.match(/chunk-(\d+)/)[1])\<close>: the leftmost place where \<^verbatim>\<open>chunk-\<close> is
  followed by a digit, and from there the longest run of digits, read as a decimal number.
  When the pattern matches nowhere, \<^verbatim>\<open>match\<close> returns \<^verbatim>\<open>null\<close> and the subscript
  throws (\<open>None\<close>).
\<close>

definition isDigit :: "char \<Rightarrow> bool" where
  "isDigit c \<longleftrightarrow> c \<in> set ''0123456789''"

fun matchChunkDigits :: "string \<Rightarrow> string option" where
  "matchChunkDigits [] = None"
| "matchChunkDigits (c # cs) =
    (if prefix ''chunk-'' (c # cs) \<and> takeWhile isDigit (drop 6 (c # cs)) \<noteq> []
     then Some (takeWhile isDigit (drop 6 (c # cs)))
     else matchChunkDigits cs)"

definition digitValue :: "char \<Rightarrow> nat" where
  "digitValue c = of_char c - 48"

definition parseInt :: "string \<Rightarrow> nat" where
  "parseInt ds = foldl (\<lambda>n c. 10 * n + digitValue c) 0 ds"

definition chunkIndex :: "string \<Rightarrow> nat option" where
  "chunkIndex name = map_option parseInt (matchChunkDigits name)"

subsection \<open>Invariants of the worker pool\<close>

text \<open>
  The counter \<^verbatim>\<open>chunksBeingProcessed\<close> is the number of suspended calls and is at most
  the bound; every discovered chunk is queued, suspended or processed.
\<close>

definition counters :: "pool_state \<Rightarrow> bool" where
  "counters s \<longleftrightarrow>
     chunksBeingProcessed s = length (inFlight s)
     \<and> chunksBeingProcessed s \<le> MAX_CONCURRENT_CHUNKS
     \<and> length (chunkQueue s) + length (inFlight s) + processedChunks s = totalChunks s"

text \<open>
  Every percentage written so far is a number, the percentages are in non-decreasing
  order, and while the response is open none of them exceeds the percentage that the
  current counters give.
\<close>

definition streamBound :: "pool_state \<Rightarrow> int" where
  "streamBound s = 20 + int ((70 * processedChunks s) div totalChunks s)"

definition streamOK :: "pool_state \<Rightarrow> bool" where
  "streamOK s \<longleftrightarrow>
     (\<exists>ps. map progressOf (res s) = map Some ps \<and> sorted ps
        \<and> (\<not> resEnded s \<longrightarrow> (\<forall>p \<in> set ps. p \<le> streamBound s)))"



text \<open>
  The result that a chunk ends with: the placeholder of a failed check of its file, the
  text of the first successful attempt, or the placeholder of the last failed attempt.
\<close>

definition terminalResult :: "pool_environment \<Rightarrow> nat \<Rightarrow> string" where
  "terminalResult env i =
    (case validateChunk (statSync env) i of
       Some message \<Rightarrow> errorPlaceholder i message
     | None \<Rightarrow>
         (case transcribeWithRetry (createTranscription env i) 0 of
            Inr text \<Rightarrow> text
          | Inl message \<Rightarrow> errorPlaceholder i message))"

text \<open>
  Every discovered chunk is in exactly one place (queued, suspended, or recorded with its
  terminal result), the discovered chunks are the numbers below \<^verbatim>\<open>totalChunks\<close>, and a
  settled promise agrees with the variables of the closure.
\<close>

definition ledger :: "pool_environment \<Rightarrow> pool_state \<Rightarrow> bool" where
  "ledger env s \<longleftrightarrow>
     distinct (chunkQueue s @ inFlight s)
     \<and> set (chunkQueue s) \<union> set (inFlight s) \<union> dom (transcriptionResults s)
         = {0..<totalChunks s}
     \<and> (set (chunkQueue s) \<union> set (inFlight s)) \<inter> dom (transcriptionResults s) = {}
     \<and> (\<forall>i \<in> set (inFlight s). validateChunk (statSync env) i = None)
     \<and> (\<forall>i t. transcriptionResults s i = Some t \<longrightarrow> t = terminalResult env i)
     \<and> (isSplittingComplete s \<longrightarrow> \<not> chunkWatcher s \<and> \<not> splitRunning s)
     \<and> (\<forall>c. promise s = ResolvedWith c \<longrightarrow>
           isSplittingComplete s \<and> chunkQueue s = [] \<and> inFlight s = []
           \<and> c = joinWith '' '' (combinedResults (transcriptionResults s) [0..<totalChunks s]))
     \<and> (\<forall>m. promise s = RejectedWith m \<longrightarrow> \<not> isSplittingComplete s \<and> \<not> splitRunning s)"

text \<open>
  A listing of chunk files numbered \<open>0, 1, \<dots>\<close> without gap, as the output pattern
  \<^verbatim>\<open>chunk-%03d\<close> of the split tool produces them.
\<close>

fun denseListing :: "pool_event \<Rightarrow> bool" where
  "denseListing (WatcherTick listing) \<longleftrightarrow> sort listing = [0..<length listing]"
| "denseListing _ \<longleftrightarrow> True"

definition booked :: "pool_environment \<Rightarrow> pool_state \<Rightarrow> bool" where
  "booked env s \<longleftrightarrow> counters s \<and> ledger env s"

text \<open>
  What a handler leaves alone: whether the response has ended, a promise that is settled,
  and a response that has ended.
\<close>

definition framed :: "pool_state \<Rightarrow> pool_state \<Rightarrow> bool" where
  "framed s0 s \<longleftrightarrow>
     resEnded s = resEnded s0
     \<and> (promise s0 \<noteq> Pending \<longrightarrow> promise s = promise s0)
     \<and> (resEnded s0 \<longrightarrow> res s = res s0)"

text \<open>
  Between two events: the queue is empty or the pool is full; when the split has ended
  and every chunk is processed the promise is settled; the response has ended exactly when
  the promise is settled, and the transcript of a resolved promise is in the final event.
\<close>

definition quiescent :: "pool_state \<Rightarrow> bool" where
  "quiescent s \<longleftrightarrow>
     (chunkQueue s = [] \<or> MAX_CONCURRENT_CHUNKS \<le> chunksBeingProcessed s)
     \<and> (isSplittingComplete s \<and> processedChunks s = totalChunks s \<longrightarrow> promise s \<noteq> Pending)
     \<and> (resEnded s \<longleftrightarrow> promise s \<noteq> Pending)
     \<and> (\<forall>c. promise s = ResolvedWith c \<longrightarrow> res s \<noteq> [] \<and> last (res s) = CompleteEvent c 100)"

text \<open>
  Sample environments for the examples: a service that transcribes chunk \<open>i\<close> as
  \<open>text\<close>\<open>i\<close>, and one that in addition rejects every attempt on chunk \<open>k\<close>.
\<close>

definition steadyService :: pool_environment where
  "steadyService =
    \<lparr>statSync = (\<lambda>i. Some 1000),
     createTranscription = (\<lambda>i a. Inr (''text'' @ showNat i))\<rparr>"

definition flakyService :: "nat \<Rightarrow> pool_environment" where
  "flakyService k =
    \<lparr>statSync = (\<lambda>i. Some 1000),
     createTranscription =
       (\<lambda>i a. if i = k then Inl ''429 rate limit'' else Inr (''text'' @ showNat i))\<rparr>"

text \<open>
  A sample run: three chunks are discovered at once, the call for chunk 1 returns before
  the call for chunk 0, and the call for chunk 2 returns after the split tool has ended.
\<close>

definition sampleEvents :: "pool_event list" where
  "sampleEvents =
    [WatcherTick [0, 1, 2], TranscriptionSettled 1, TranscriptionSettled 0,
     SplitEnd, TranscriptionSettled 2]"

subsection \<open>A session whose third chunk was repaired\<close>

text \<open>
  A sample session for the examples. The upload has 75 400 000 bytes and lasts half an
  hour, for which the planner gives ten minutes. Its bitrate varies: the split tool wrote
  two chunks of 23 700 000 bytes and a third of 28 000 000 bytes, which is over the limit.
  The repair splits the third chunk at five minutes into two pieces and renames them with
  the first eight characters of two fresh identifiers, which here begin with a digit.
\<close>

definition repairedOpts :: options where
  "repairedOpts = \<lparr>sessionId = ''s1'', outputExt = ''.m4a'', segmentDuration = 600\<rparr>"

definition repairedTool :: repair_environment where
  "repairedTool =
    \<lparr>ffmpegSegment = (\<lambda>name sz t. Inr (cutEvery (nat t * 46667) sz)),
     uuidv4 = (\<lambda>k. [''5a0b1c2d-3e4f-4a5b-8c6d-7e8f9a0b1c2d'',
                     ''7e3f9a10-b2c4-4d6e-9f80-a1b2c3d4e5f6''] ! (k mod 2))\<rparr>"

definition repairedNames :: "string list" where
  "repairedNames =
    [''s1-chunk-000.m4a'', ''s1-chunk-001.m4a'',
     ''s1-chunk-5a0b1c2d.m4a'', ''s1-chunk-7e3f9a10.m4a'']"

text \<open>
  A run of the pool on that session: one tick of the watcher finds the four files, whose
  numbers are 0, 1, 5 and 7, before the split tool that \<^verbatim>\<open>processChunks\<close> starts has
  written the third chunk again; the four calls return, the call for chunk 1 first; then
  the split tool ends.
\<close>

definition repairedEvents :: "pool_event list" where
  "repairedEvents =
    [WatcherTick [0, 1, 5, 7], TranscriptionSettled 1, TranscriptionSettled 0,
     TranscriptionSettled 5, TranscriptionSettled 7, SplitEnd]"

section \<open>Properties\<close>

subsection \<open>The planner stays within its bounds\<close>

text \<open>
  Claim C2. For every positive file size and positive duration the planner returns a number
  (not \<^verbatim>\<open>NaN\<close>) that lies between \<^verbatim>\<open>MIN_CHUNK_DURATION\<close> = 120 and
  \<^verbatim>\<open>MAX_CHUNK_DURATION\<close> = 1800 seconds, both included.
\<close>

theorem calculateOptimalChunkDuration_in_bounds:
  assumes "0 < fileSize" and "0 < fileDuration"
  shows "\<exists>d. calculateOptimalChunkDuration fileSize fileDuration = Some d
           \<and> MIN_CHUNK_DURATION \<le> d \<and> d \<le> MAX_CHUNK_DURATION
           \<and> 120 \<le> d \<and> d \<le> 1800"
  using assms
  by (simp add: calculateOptimalChunkDuration_def MIN_CHUNK_DURATION_def
      MAX_CHUNK_DURATION_def Let_def)

theorem calculateOptimalChunkDuration_in_bounds_witness:
  "(0::nat) < 314572800 \<and> (0::real) < 1 / 2
    \<and> (\<exists>d. calculateOptimalChunkDuration 314572800 (1 / 2) = Some d
           \<and> MIN_CHUNK_DURATION \<le> d \<and> d \<le> MAX_CHUNK_DURATION
           \<and> 120 \<le> d \<and> d \<le> 1800)"
  using calculateOptimalChunkDuration_in_bounds [of 314572800 "1 / 2"]
  by simp

subsection \<open>The planner at 50 KB/s\<close>

text \<open>
  The planner's target is \<open>24 * 1024 * 1024\<close> bytes, so at 50 KB/s the raw optimum is not
  480 seconds: it is 491 seconds when a KB is 1024 bytes (a ten-minute file of 30 720 000
  bytes) and 503 seconds when a KB is 1000 bytes (a ten-minute file of 30 000 000 bytes).
\<close>

theorem planner_50KBps_not_480:
  "calculateOptimalChunkDuration 30720000 600 = Some 491
    \<and> calculateOptimalChunkDuration 30000000 600 = Some 503
    \<and> calculateOptimalChunkDuration 30720000 600 \<noteq> Some 480
    \<and> calculateOptimalChunkDuration 30000000 600 \<noteq> Some 480"
  by (simp add: calculateOptimalChunkDuration_def MB_def MIN_CHUNK_DURATION_def)

text \<open>
  Claim C7, as amended. For a file whose estimated bitrate is 50 KB/s = 51 200 bytes per
  second, the raw optimum is \<open>\<lfloor>25165824 / 51200\<rfloor> = 491\<close> seconds, which lies within
  the clamp bounds, so the chosen segment duration is 491 seconds.
\<close>

theorem planner_50KBps_is_491:
  assumes "0 < fileDuration" and "real fileSize = 50 * 1024 * fileDuration"
  shows "calculateOptimalChunkDuration fileSize fileDuration = Some 491
          \<and> \<lfloor>real (24 * MB) / (real fileSize / fileDuration)\<rfloor> = 491
          \<and> MIN_CHUNK_DURATION \<le> 491 \<and> 491 \<le> MAX_CHUNK_DURATION"
  using assms
  by (simp add: calculateOptimalChunkDuration_def MB_def MIN_CHUNK_DURATION_def
      MAX_CHUNK_DURATION_def Let_def)

theorem planner_50KBps_is_491_witness:
  "(0::real) < 600 \<and> real (30720000::nat) = 50 * 1024 * 600
    \<and> calculateOptimalChunkDuration 30720000 600 = Some 491
    \<and> \<lfloor>real (24 * MB) / (real (30720000::nat) / 600)\<rfloor> = 491
    \<and> MIN_CHUNK_DURATION \<le> 491 \<and> 491 \<le> MAX_CHUNK_DURATION"
  using planner_50KBps_is_491 [of 600 30720000]
  by simp

subsection \<open>Small files take the single-request path\<close>

text \<open>
  Claim C9. An upload of at most \<open>25 * 1024 * 1024\<close> bytes (the limit included) is handled
  on the single-request path and answered by exactly one JSON response;
  \<^verbatim>\<open>handleLargeFile\<close> is entered exactly when the size is strictly greater than the limit.
\<close>

theorem small_file_single_request:
  "(file_size file \<le> 25 * 1024 * 1024 \<longrightarrow>
      (\<exists>effects disk'. postTranscribe whisper savedFilename (Some file) disk
          = SingleRequest effects disk'
        \<and> length (filter isRespond effects) = 1))
   \<and> (postTranscribe whisper savedFilename (Some file) disk = HandleLargeFile file
        \<longleftrightarrow> 25 * 1024 * 1024 < file_size file)"
  by (auto simp: postTranscribe_def transcribeSmallFile_def OPENAI_WHISPER_LIMIT_def MB_def
      Let_def split: sum.splits)

theorem small_file_single_request_witness:
  "file_size \<lparr>file_path = ''uploads/a.mp3'', file_size = 26214400,
       file_originalname = ''a.mp3''\<rparr> \<le> 25 * 1024 * 1024
   \<and> postTranscribe (\<lambda>p. Inr ''hello'') (Some ''a.txt'')
        (Some \<lparr>file_path = ''uploads/a.mp3'', file_size = 26214400,
           file_originalname = ''a.mp3''\<rparr>) {''uploads/a.mp3''}
      = SingleRequest [SaveTranscription ''hello'' ''a.mp3'', Unlink ''uploads/a.mp3'',
          Respond 200 (SuccessBody ''hello'' (Some ''a.txt''))] {}
   \<and> postTranscribe (\<lambda>p. Inr ''hello'') (Some ''a.txt'')
        (Some \<lparr>file_path = ''uploads/a.mp3'', file_size = 26214401,
           file_originalname = ''a.mp3''\<rparr>) {''uploads/a.mp3''}
      = HandleLargeFile \<lparr>file_path = ''uploads/a.mp3'', file_size = 26214401,
           file_originalname = ''a.mp3''\<rparr>"
  using small_file_single_request [of "\<lparr>file_path = ''uploads/a.mp3'', file_size = 26214400,
       file_originalname = ''a.mp3''\<rparr>" "\<lambda>p. Inr ''hello''" "Some ''a.txt''" "{''uploads/a.mp3''}"]
  by (simp add: postTranscribe_def transcribeSmallFile_def OPENAI_WHISPER_LIMIT_def MB_def)

subsection \<open>The upload is deleted on success only\<close>

text \<open>
  Claim C10. On the single-request path, when the transcription call returns, the uploaded
  file is unlinked before the success response is sent and is gone from the disk; when the
  transcription call throws, the only effect is the 500 response: nothing is unlinked and
  the disk is unchanged.
\<close>

theorem small_file_cleanup:
  assumes "file_path file \<in> disk"
  shows "(whisper (file_path file) = Inr text \<longrightarrow>
           transcribeSmallFile whisper savedFilename file disk
             = ([SaveTranscription text (file_originalname file), Unlink (file_path file),
                 Respond 200 (SuccessBody text savedFilename)], disk - {file_path file}))
       \<and> (whisper (file_path file) = Inl message \<longrightarrow>
           transcribeSmallFile whisper savedFilename file disk
             = ([Respond 500 (FailureBody (messageOrDefault message))], disk)
           \<and> file_path file \<in> snd (transcribeSmallFile whisper savedFilename file disk))"
  using assms by (simp add: transcribeSmallFile_def Let_def)

theorem small_file_cleanup_witness:
  "''uploads/a.mp3'' \<in> {''uploads/a.mp3'', ''uploads/b.mp3''}
   \<and> transcribeSmallFile (\<lambda>p. Inr ''hello'') None
        \<lparr>file_path = ''uploads/a.mp3'', file_size = 1000, file_originalname = ''a.mp3''\<rparr>
        {''uploads/a.mp3'', ''uploads/b.mp3''}
      = ([SaveTranscription ''hello'' ''a.mp3'', Unlink ''uploads/a.mp3'',
          Respond 200 (SuccessBody ''hello'' None)], {''uploads/b.mp3''})
   \<and> transcribeSmallFile (\<lambda>p. Inl ''429 rate limit'') None
        \<lparr>file_path = ''uploads/a.mp3'', file_size = 1000, file_originalname = ''a.mp3''\<rparr>
        {''uploads/a.mp3'', ''uploads/b.mp3''}
      = ([Respond 500 (FailureBody ''429 rate limit'')],
         {''uploads/a.mp3'', ''uploads/b.mp3''})"
  using small_file_cleanup [of "\<lparr>file_path = ''uploads/a.mp3'', file_size = 1000,
        file_originalname = ''a.mp3''\<rparr>" "{''uploads/a.mp3'', ''uploads/b.mp3''}"
        "\<lambda>p. Inr ''hello''" "''hello''" None "''429 rate limit''"]
    small_file_cleanup [of "\<lparr>file_path = ''uploads/a.mp3'', file_size = 1000,
        file_originalname = ''a.mp3''\<rparr>" "{''uploads/a.mp3'', ''uploads/b.mp3''}"
        "\<lambda>p. Inl ''429 rate limit''" "''hello''" None "''429 rate limit''"]
  by (simp add: messageOrDefault_def)

subsection \<open>The repair scan on compliant segments\<close>

text \<open>
  Claim C6. When every segment of the session is at or under the hard limit, the repair
  returns at its first call (one call suffices, so it does not recurse), resolved, with
  the directory unchanged and no operation added to the trace: nothing is re-split,
  unlinked or renamed.
\<close>

theorem repair_noop_when_compliant:
  assumes "\<forall>(name, sz) \<in> set (chunksDir st).
             isSessionChunk opts name \<longrightarrow> sz \<le> OPENAI_WHISPER_LIMIT"
  shows "verifyAndResplitChunks (Suc fuel) env opts st = (Some Resolved, st)
       \<and> verifyAndResplitChunks 1 env opts st = (Some Resolved, st)"
proof -
  from assms have "oversizedFiles opts (chunksDir st) = []"
    by (auto simp: oversizedFiles_def filter_empty_conv)
  then show ?thesis by simp
qed

theorem repair_noop_when_compliant_witness:
  "verifyAndResplitChunks 1 (uniformSplitTool 40000)
      \<lparr>sessionId = ''s1'', outputExt = ''.mp3'', segmentDuration = 600\<rparr>
      \<lparr>chunksDir = [(''s1-chunk-000.mp3'', 24000000), (''s1-chunk-001.mp3'', 26214400),
          (''s2-chunk-000.mp3'', 30000000)], fsTrace = [], uuidCount = 0\<rparr>
   = (Some Resolved,
      \<lparr>chunksDir = [(''s1-chunk-000.mp3'', 24000000), (''s1-chunk-001.mp3'', 26214400),
          (''s2-chunk-000.mp3'', 30000000)], fsTrace = [], uuidCount = 0\<rparr>)"
  using repair_noop_when_compliant [of
      "\<lparr>chunksDir = [(''s1-chunk-000.mp3'', 24000000), (''s1-chunk-001.mp3'', 26214400),
          (''s2-chunk-000.mp3'', 30000000)], fsTrace = [], uuidCount = 0\<rparr>"
      "\<lparr>sessionId = ''s1'', outputExt = ''.mp3'', segmentDuration = 600\<rparr>"
      0 "uniformSplitTool 40000"]
  by (simp add: isSessionChunk_def startsWith_def endsWith_def OPENAI_WHISPER_LIMIT_def MB_def)

subsection \<open>The repair cycle splits at the same duration on every pass\<close>

lemma resplitOversized_trace:
  "resplitOversized env opts files st = (r, st') \<Longrightarrow>
     \<exists>ops. fsTrace st' = fsTrace st @ ops \<and> list_all (splitsAtHalf opts) ops"
proof (induction files arbitrary: st)
  case Nil
  then show ?case by simp
next
  case (Cons a files)
  obtain name sz where a: "a = (name, sz)" by (cases a)
  show ?case
  proof (cases "ffmpegSegment env name sz (max 1 (segmentDuration opts div 2))")
    case (Inl err)
    with Cons.prems a show ?thesis by (auto simp: Let_def)
  next
    case (Inr pieces)
    with Cons.prems a Cons.IH show ?thesis by (fastforce simp: Let_def)
  qed
qed

lemma renameSubChunks_trace:
  "renameSubChunks env opts subChunks st = (r, st') \<Longrightarrow>
     \<exists>ops. fsTrace st' = fsTrace st @ ops \<and> list_all (splitsAtHalf opts) ops"
proof (induction subChunks arbitrary: st)
  case Nil
  then show ?case by simp
next
  case (Cons subChunk subChunks)
  then show ?case by (fastforce simp: Let_def split: option.splits)
qed

lemma verifyAndResplitChunks_trace:
  "verifyAndResplitChunks fuel env opts st = (r, st') \<Longrightarrow>
     \<exists>ops. fsTrace st' = fsTrace st @ ops \<and> list_all (splitsAtHalf opts) ops"
proof (induction fuel arbitrary: st)
  case 0
  then show ?case by simp
next
  case (Suc fuel)
  show ?case
  proof (cases "oversizedFiles opts (chunksDir st) = []")
    case True
    with Suc.prems show ?thesis by simp
  next
    case False
    obtain r1 st1 where
      r1: "resplitOversized env opts (oversizedFiles opts (chunksDir st)) st = (r1, st1)"
      by (cases "resplitOversized env opts (oversizedFiles opts (chunksDir st)) st")
    from resplitOversized_trace [OF r1] obtain ops1 where
      ops1: "fsTrace st1 = fsTrace st @ ops1" "list_all (splitsAtHalf opts) ops1" by blast
    show ?thesis
    proof (cases r1)
      case (Some err)
      with Suc.prems False r1 ops1 show ?thesis by auto
    next
      case None
      obtain r2 st2 where r2: "renameSubChunks env opts
          (filter (\<lambda>f. includesStr f ''-sub-'') (map fst (chunksDir st1))) st1 = (r2, st2)"
        by (cases "renameSubChunks env opts
          (filter (\<lambda>f. includesStr f ''-sub-'') (map fst (chunksDir st1))) st1")
      from renameSubChunks_trace [OF r2] obtain ops2 where
        ops2: "fsTrace st2 = fsTrace st1 @ ops2" "list_all (splitsAtHalf opts) ops2" by blast
      show ?thesis
      proof (cases r2)
        case (Some err)
        with Suc.prems False r1 None r2 ops1 ops2 show ?thesis by auto
      next
        case None': None
        from Suc.prems False r1 None r2 None'
        have "verifyAndResplitChunks fuel env opts st2 = (r, st')" by simp
        from Suc.IH [OF this] obtain ops3 where
          "fsTrace st' = fsTrace st2 @ ops3" "list_all (splitsAtHalf opts) ops3" by blast
        with ops1 ops2 show ?thesis by auto
      qed
    qed
  qed
qed

lemma verifyAndResplitChunks_resolved:
  "verifyAndResplitChunks fuel env opts st = (Some Resolved, st') \<Longrightarrow>
     oversizedFiles opts (chunksDir st') = []"
proof (induction fuel arbitrary: st)
  case 0
  then show ?case by simp
next
  case (Suc fuel)
  then show ?case
    by (auto split: if_splits prod.splits option.splits)
qed

text \<open>
  A two-minute upload of 1 152 000 bytes per second (192 kHz, 24 bit, stereo) has
  138 240 000 bytes. The planner's duration for it is the lower clamp bound, 120 seconds,
  so the split tool writes it as one chunk. The first pass splits the chunk at 60 seconds
  into two pieces of 69 120 000 bytes, still over the limit; the second and the third pass
  split each piece at 60 seconds again, not at 30 and 15, which returns each piece as it
  is. After eight calls, more than the binary logarithm of 120, the function has not
  returned; all fifteen requests to the split tool were at 60 seconds, and the directory
  is as it was after the first pass, up to the names.
\<close>

lemma repair_does_not_halve_again:
  "verifyAndResplitChunks 3 (uniformSplitTool 1152000) stuckOpts
      \<lparr>chunksDir = [(''s1-chunk-000.m4a'', 138240000)], fsTrace = [], uuidCount = 0\<rparr>
   = (None,
      \<lparr>chunksDir = [(''s1-chunk-a0b1c2d4.m4a'', 69120000),
                    (''s1-chunk-a0b1c2d5.m4a'', 69120000)],
       fsTrace =
         [FfmpegSegment ''s1-chunk-000.m4a'' 60, UnlinkSync ''s1-chunk-000.m4a'',
          RenameSync ''s1-chunk-000-sub-000.m4a'' ''s1-chunk-a0b1c2d0.m4a'',
          RenameSync ''s1-chunk-000-sub-001.m4a'' ''s1-chunk-a0b1c2d1.m4a'',
          FfmpegSegment ''s1-chunk-a0b1c2d0.m4a'' 60, UnlinkSync ''s1-chunk-a0b1c2d0.m4a'',
          FfmpegSegment ''s1-chunk-a0b1c2d1.m4a'' 60, UnlinkSync ''s1-chunk-a0b1c2d1.m4a'',
          RenameSync ''s1-chunk-a0b1c2d0-sub-000.m4a'' ''s1-chunk-a0b1c2d2.m4a'',
          RenameSync ''s1-chunk-a0b1c2d1-sub-000.m4a'' ''s1-chunk-a0b1c2d3.m4a'',
          FfmpegSegment ''s1-chunk-a0b1c2d2.m4a'' 60, UnlinkSync ''s1-chunk-a0b1c2d2.m4a'',
          FfmpegSegment ''s1-chunk-a0b1c2d3.m4a'' 60, UnlinkSync ''s1-chunk-a0b1c2d3.m4a'',
          RenameSync ''s1-chunk-a0b1c2d2-sub-000.m4a'' ''s1-chunk-a0b1c2d4.m4a'',
          RenameSync ''s1-chunk-a0b1c2d3-sub-000.m4a'' ''s1-chunk-a0b1c2d5.m4a''],
       uuidCount = 6\<rparr>)
   \<and> fst (verifyAndResplitChunks 8 (uniformSplitTool 1152000) stuckOpts
      \<lparr>chunksDir = [(''s1-chunk-000.m4a'', 138240000)], fsTrace = [], uuidCount = 0\<rparr>) = None
   \<and> segmentTimes (fsTrace (snd (verifyAndResplitChunks 8 (uniformSplitTool 1152000) stuckOpts
      \<lparr>chunksDir = [(''s1-chunk-000.m4a'', 138240000)], fsTrace = [], uuidCount = 0\<rparr>)))
     = [60, 60, 60, 60, 60, 60, 60, 60, 60, 60, 60, 60, 60, 60, 60]
   \<and> chunksDir (snd (verifyAndResplitChunks 8 (uniformSplitTool 1152000) stuckOpts
      \<lparr>chunksDir = [(''s1-chunk-000.m4a'', 138240000)], fsTrace = [], uuidCount = 0\<rparr>))
     = [(''s1-chunk-a0b1c2de.m4a'', 69120000), (''s1-chunk-a0b1c2df.m4a'', 69120000)]"
  by code_simp

subsection \<open>A repair that never returns\<close>

text \<open>
  On that input the function does not return, however many calls it is allowed: a pass
  on a directory of one-minute chunks of 69 120 000 bytes replaces each chunk by a piece
  of the same size under a new name.
\<close>

lemma map_fst_writeFile:
  "fst ` set (writeFile d name sz) = insert name (fst ` set d)"
proof (induction d)
  case Nil
  then show ?case by simp
next
  case (Cons a d)
  obtain m s where a: "a = (m, s)" by (cases a)
  show ?case
  proof (cases "m = name")
    case True
    with a show ?thesis by simp
  next
    case False
    with a Cons show ?thesis by (simp add: insert_commute)
  qed
qed

lemma distinct_writeFile: "distinct (map fst d) \<Longrightarrow> distinct (map fst (writeFile d name sz))"
proof (induction d)
  case Nil
  then show ?case by simp
next
  case (Cons a d)
  obtain m s where a: "a = (m, s)" by (cases a)
  with Cons show ?case
    using map_fst_writeFile [of d name sz] by (cases "m = name") auto
qed

lemma set_writeFile: "e \<in> set (writeFile d name sz) \<Longrightarrow> e = (name, sz) \<or> e \<in> set d"
  by (induction d) (auto split: if_splits)

lemma writeFile_mem: "(name, sz) \<in> set (writeFile d name sz)"
  by (induction d) auto

lemma writeFile_keeps: "e \<in> set d \<Longrightarrow> fst e \<noteq> name \<Longrightarrow> e \<in> set (writeFile d name sz)"
  by (induction d) auto


lemma includes_sub_piece: "includesStr (base @ ''-sub-'' @ rest) ''-sub-''"
  unfolding includesStr_def by (rule sublist_appendI)

lemma stuck_ffmpeg:
  "ffmpegSegment (uniformSplitTool 1152000) name 69120000
     (max 1 (segmentDuration stuckOpts div 2)) = Inr [69120000]"
  by (simp add: uniformSplitTool_def stuckOpts_def cutEvery.simps [of _ 69120000])

lemma resplit_stuck:
  assumes "\<forall>e \<in> set files. snd e = 69120000 \<and> \<not> includesStr (fst e) ''-sub-''"
    and "distinct (map fst (chunksDir st))"
    and "\<forall>e \<in> set (chunksDir st). snd e = 69120000"
    and "\<forall>e \<in> set (chunksDir st). includesStr (fst e) ''-sub-'' \<or> e \<in> set files"
    and "files \<noteq> [] \<or> chunksDir st \<noteq> []"
  shows "\<exists>st'. resplitOversized (uniformSplitTool 1152000) stuckOpts files st = (None, st')
           \<and> distinct (map fst (chunksDir st'))
           \<and> (\<forall>e \<in> set (chunksDir st'). snd e = 69120000 \<and> includesStr (fst e) ''-sub-'')
           \<and> chunksDir st' \<noteq> []"
  using assms
proof (induction files arbitrary: st)
  case Nil
  then show ?case by auto
next
  case (Cons a files)
  obtain name sz where a: "a = (name, sz)" by (cases a)
  with Cons.prems(1) have sz: "sz = 69120000" and nosub: "\<not> includesStr name ''-sub-''"
    by auto
  let ?piece = "basename name (outputExt stuckOpts) @ ''-sub-''
      @ padStart3 (showNat 0) @ outputExt stuckOpts"
  let ?d1 = "writeFile (chunksDir st) ?piece 69120000"
  let ?d2 = "unlinkSync ?d1 name"
  let ?st2 = "st\<lparr>fsTrace := fsTrace st @ [FfmpegSegment name (max 1 (segmentDuration stuckOpts div 2))],
      chunksDir := ?d2,
      fsTrace := (fsTrace st @ [FfmpegSegment name (max 1 (segmentDuration stuckOpts div 2))])
        @ [UnlinkSync name]\<rparr>"
  have piece: "includesStr ?piece ''-sub-''"
    by (rule includes_sub_piece)
  with nosub have ne: "?piece \<noteq> name" by auto
  have step: "resplitOversized (uniformSplitTool 1152000) stuckOpts (a # files) st
      = resplitOversized (uniformSplitTool 1152000) stuckOpts files ?st2"
    using a sz stuck_ffmpeg [of name] by (simp add: Let_def)
  have d2: "chunksDir ?st2 = ?d2" by simp
  have 1: "\<forall>e \<in> set files. snd e = 69120000 \<and> \<not> includesStr (fst e) ''-sub-''"
    using Cons.prems(1) by simp
  have 2: "distinct (map fst ?d2)"
    using distinct_writeFile [OF Cons.prems(2)]
    by (simp add: unlinkSync_def distinct_map_filter)
  have mem: "\<And>e. e \<in> set ?d2 \<Longrightarrow> (e = (?piece, 69120000) \<or> e \<in> set (chunksDir st)) \<and> fst e \<noteq> name"
    using set_writeFile by (fastforce simp: unlinkSync_def)
  have 3: "\<forall>e \<in> set ?d2. snd e = 69120000"
    using mem Cons.prems(3) by fastforce
  have 4: "\<forall>e \<in> set ?d2. includesStr (fst e) ''-sub-'' \<or> e \<in> set files"
  proof
    fix e assume e: "e \<in> set ?d2"
    from mem [OF e] consider "e = (?piece, 69120000)" | "e \<in> set (chunksDir st)" "fst e \<noteq> name"
      by blast
    then show "includesStr (fst e) ''-sub-'' \<or> e \<in> set files"
    proof cases
      case 1
      with piece show ?thesis by simp
    next
      case 2
      with Cons.prems(4) a show ?thesis by fastforce
    qed
  qed
  have "(?piece, 69120000) \<in> set ?d2"
    using writeFile_mem [of ?piece 69120000 "chunksDir st"] ne
    by (simp add: unlinkSync_def)
  then have 5: "files \<noteq> [] \<or> ?d2 \<noteq> []" by auto
  from Cons.IH [of ?st2] 1 2 3 4 5 step show ?case
    unfolding d2 by simp
qed


lemma stuck_newName:
  "isSessionChunk stuckOpts (sessionId stuckOpts @ ''-chunk-''
      @ take 8 (uuidv4 (uniformSplitTool 1152000) k) @ outputExt stuckOpts)"
  "\<not> includesStr (sessionId stuckOpts @ ''-chunk-''
      @ take 8 (uuidv4 (uniformSplitTool 1152000) k) @ outputExt stuckOpts) ''-sub-''"
  by (simp_all add: isSessionChunk_def startsWith_def endsWith_def includesStr_def
      stuckOpts_def uniformSplitTool_def suffix_def sublist_code)

lemma rename_stuck:
  assumes "distinct subs" and "\<forall>n \<in> set subs. includesStr n ''-sub-''"
    and "distinct (map fst (chunksDir st))"
    and "\<forall>e \<in> set (chunksDir st). snd e = 69120000"
    and "set subs \<subseteq> fst ` set (chunksDir st)"
    and "\<forall>e \<in> set (chunksDir st). fst e \<in> set subs
           \<or> (isSessionChunk stuckOpts (fst e) \<and> \<not> includesStr (fst e) ''-sub-'')"
    and "chunksDir st \<noteq> []"
  shows "\<exists>st'. renameSubChunks (uniformSplitTool 1152000) stuckOpts subs st = (None, st')
           \<and> stuck (chunksDir st')"
  using assms
proof (induction subs arbitrary: st)
  case Nil
  then show ?case by (auto simp: stuck_def allOversized_def)
next
  case (Cons sub subs)
  let ?new = "sessionId stuckOpts @ ''-chunk-''
      @ take 8 (uuidv4 (uniformSplitTool 1152000) (uuidCount st)) @ outputExt stuckOpts"
  let ?d = "chunksDir st"
  let ?d' = "map (\<lambda>(m, s). if m = sub then (?new, s) else (m, s))
                 (filter (\<lambda>(m, s). m \<noteq> ?new) ?d)"
  let ?st' = "st\<lparr>uuidCount := Suc (uuidCount st),
      fsTrace := fsTrace st @ [RenameSync sub ?new], chunksDir := ?d'\<rparr>"
  from Cons.prems(2) stuck_newName(2) [of "uuidCount st"] have ne: "sub \<noteq> ?new"
    by auto
  from Cons.prems(5) obtain sz where subd: "(sub, sz) \<in> set ?d"
    by auto
  with Cons.prems(3) have "map_of ?d sub = Some sz"
    by simp
  then have rn: "renameSync ?d sub ?new = Some ?d'"
    using ne by (simp add: renameSync_def)
  have step: "renameSubChunks (uniformSplitTool 1152000) stuckOpts (sub # subs) st
      = renameSubChunks (uniformSplitTool 1152000) stuckOpts subs ?st'"
    using rn by (simp add: Let_def)
  have d': "chunksDir ?st' = ?d'" by simp
  have names: "map fst ?d' = map (\<lambda>m. if m = sub then ?new else m)
      (map fst (filter (\<lambda>(m, s). m \<noteq> ?new) ?d))"
    by (simp add: comp_def case_prod_beta)
  have dfil: "distinct (map fst (filter (\<lambda>(m, s). m \<noteq> ?new) ?d))"
    using Cons.prems(3) by (simp add: distinct_map_filter)
  have notin: "?new \<notin> set (map fst (filter (\<lambda>(m, s). m \<noteq> ?new) ?d))"
    by auto
  have 3: "distinct (map fst ?d')"
    unfolding names
  proof (rule distinct_map [THEN iffD2], intro conjI)
    show "distinct (map fst (filter (\<lambda>(m, s). m \<noteq> ?new) ?d))" by (rule dfil)
    show "inj_on (\<lambda>m. if m = sub then ?new else m)
        (set (map fst (filter (\<lambda>(m, s). m \<noteq> ?new) ?d)))"
      using notin by (auto simp: inj_on_def)
  qed
  have 4: "\<forall>e \<in> set ?d'. snd e = 69120000"
    using Cons.prems(4) by auto
  have 1: "distinct subs" and 2: "\<forall>n \<in> set subs. includesStr n ''-sub-''"
    using Cons.prems(1,2) by simp_all
  have 5: "set subs \<subseteq> fst ` set ?d'"
  proof
    fix n assume n: "n \<in> set subs"
    with Cons.prems(1) have "n \<noteq> sub" by auto
    moreover from n 2 stuck_newName(2) [of "uuidCount st"] have "n \<noteq> ?new" by auto
    moreover from n Cons.prems(5) obtain s where "(n, s) \<in> set ?d" by auto
    ultimately have "(n, s) \<in> set ?d'" by (auto simp: image_iff)
    then show "n \<in> fst ` set ?d'" by force
  qed
  have 6: "\<forall>e \<in> set ?d'. fst e \<in> set subs
           \<or> (isSessionChunk stuckOpts (fst e) \<and> \<not> includesStr (fst e) ''-sub-'')"
  proof
    fix e assume "e \<in> set ?d'"
    then obtain m s where ms: "(m, s) \<in> set ?d" "m \<noteq> ?new"
      "e = (if m = sub then (?new, s) else (m, s))"
      by auto
    show "fst e \<in> set subs
           \<or> (isSessionChunk stuckOpts (fst e) \<and> \<not> includesStr (fst e) ''-sub-'')"
    proof (cases "m = sub")
      case True
      with ms(3) stuck_newName [of "uuidCount st"] show ?thesis by simp
    next
      case False
      with ms Cons.prems(6) show ?thesis by fastforce
    qed
  qed
  have "(sub, sz) \<in> set (filter (\<lambda>(m, s). m \<noteq> ?new) ?d)"
    using subd ne by simp
  moreover have "(?new, sz) = (\<lambda>(m, s). if m = sub then (?new, s) else (m, s)) (sub, sz)"
    by simp
  ultimately have newd: "(?new, sz) \<in> set ?d'"
    unfolding set_map by (rule image_eqI [rotated])
  have 7: "?d' \<noteq> []"
  proof
    assume "?d' = []"
    with newd show False by (simp only: list.set empty_iff)
  qed
  from Cons.IH [of ?st'] 1 2 3 4 5 6 7 step show ?case
    unfolding d' by simp
qed


lemma stuck_pass:
  assumes "stuck (chunksDir st)"
  shows "\<exists>st'. verifyAndResplitChunks (Suc fuel) (uniformSplitTool 1152000) stuckOpts st
             = verifyAndResplitChunks fuel (uniformSplitTool 1152000) stuckOpts st'
           \<and> stuck (chunksDir st')"
proof -
  let ?d = "chunksDir st"
  from assms have d: "?d \<noteq> []" "distinct (map fst ?d)" "\<forall>e \<in> set ?d. snd e = 69120000"
    and names: "\<forall>e \<in> set ?d. isSessionChunk stuckOpts (fst e) \<and> \<not> includesStr (fst e) ''-sub-''"
    by (auto simp: stuck_def allOversized_def)
  have over: "oversizedFiles stuckOpts ?d = ?d"
    using d(3) names
    by (auto simp: oversizedFiles_def OPENAI_WHISPER_LIMIT_def MB_def filter_id_conv)
  have "\<forall>e \<in> set ?d. snd e = 69120000 \<and> \<not> includesStr (fst e) ''-sub-''"
    using d(3) names by simp
  from resplit_stuck [OF this d(2,3)] d(1)
  obtain st1 where st1:
    "resplitOversized (uniformSplitTool 1152000) stuckOpts ?d st = (None, st1)"
    "distinct (map fst (chunksDir st1))"
    "\<forall>e \<in> set (chunksDir st1). snd e = 69120000 \<and> includesStr (fst e) ''-sub-''"
    "chunksDir st1 \<noteq> []"
    by auto
  let ?subs = "filter (\<lambda>f. includesStr f ''-sub-'') (map fst (chunksDir st1))"
  have subs: "?subs = map fst (chunksDir st1)"
    using st1(3) by (auto simp: filter_id_conv)
  have "\<exists>st'. renameSubChunks (uniformSplitTool 1152000) stuckOpts ?subs st1 = (None, st')
           \<and> stuck (chunksDir st')"
    unfolding subs
    using st1(2,3,4) by (intro rename_stuck) auto
  then obtain st2 where st2:
    "renameSubChunks (uniformSplitTool 1152000) stuckOpts ?subs st1 = (None, st2)"
    "stuck (chunksDir st2)"
    by blast
  have "verifyAndResplitChunks (Suc fuel) (uniformSplitTool 1152000) stuckOpts st
      = verifyAndResplitChunks fuel (uniformSplitTool 1152000) stuckOpts st2"
    using d(1) over st1(1) st2(1) by simp
  with st2(2) show ?thesis by blast
qed

lemma stuck_never_returns:
  "stuck (chunksDir st) \<Longrightarrow>
     fst (verifyAndResplitChunks fuel (uniformSplitTool 1152000) stuckOpts st) = None"
proof (induction fuel arbitrary: st)
  case 0
  then show ?case by simp
next
  case (Suc fuel)
  from stuck_pass [OF Suc.prems, of fuel] obtain st' where
    "verifyAndResplitChunks (Suc fuel) (uniformSplitTool 1152000) stuckOpts st
       = verifyAndResplitChunks fuel (uniformSplitTool 1152000) stuckOpts st'"
    "stuck (chunksDir st')"
    by blast
  with Suc.IH [of st'] show ?case by simp
qed

lemma verifyAndResplitChunks_next_pass:
  "verifyAndResplitChunks (Suc 0) env opts st = (None, st1) \<Longrightarrow>
     verifyAndResplitChunks (Suc n) env opts st = verifyAndResplitChunks n env opts st1"
  by (auto split: if_splits prod.splits option.splits)

lemma oversized_upload_never_returns:
  "fst (verifyAndResplitChunks fuel (uniformSplitTool 1152000) stuckOpts
      \<lparr>chunksDir = [(''s1-chunk-000.m4a'', 138240000)], fsTrace = [], uuidCount = 0\<rparr>) = None"
proof (cases fuel)
  case 0
  then show ?thesis by simp
next
  case (Suc n)
  have first: "verifyAndResplitChunks 1 (uniformSplitTool 1152000) stuckOpts
      \<lparr>chunksDir = [(''s1-chunk-000.m4a'', 138240000)], fsTrace = [], uuidCount = 0\<rparr>
    = (None, \<lparr>chunksDir = [(''s1-chunk-a0b1c2d0.m4a'', 69120000),
                           (''s1-chunk-a0b1c2d1.m4a'', 69120000)],
        fsTrace = [FfmpegSegment ''s1-chunk-000.m4a'' 60, UnlinkSync ''s1-chunk-000.m4a'',
          RenameSync ''s1-chunk-000-sub-000.m4a'' ''s1-chunk-a0b1c2d0.m4a'',
          RenameSync ''s1-chunk-000-sub-001.m4a'' ''s1-chunk-a0b1c2d1.m4a''],
        uuidCount = 2\<rparr>)"
    by code_simp
  have st: "stuck [(''s1-chunk-a0b1c2d0.m4a'', 69120000), (''s1-chunk-a0b1c2d1.m4a'', 69120000)]"
    by code_simp
  from first have "verifyAndResplitChunks (Suc n) (uniformSplitTool 1152000) stuckOpts
      \<lparr>chunksDir = [(''s1-chunk-000.m4a'', 138240000)], fsTrace = [], uuidCount = 0\<rparr>
    = verifyAndResplitChunks n (uniformSplitTool 1152000) stuckOpts
        \<lparr>chunksDir = [(''s1-chunk-a0b1c2d0.m4a'', 69120000),
                           (''s1-chunk-a0b1c2d1.m4a'', 69120000)],
        fsTrace = [FfmpegSegment ''s1-chunk-000.m4a'' 60, UnlinkSync ''s1-chunk-000.m4a'',
          RenameSync ''s1-chunk-000-sub-000.m4a'' ''s1-chunk-a0b1c2d0.m4a'',
          RenameSync ''s1-chunk-000-sub-001.m4a'' ''s1-chunk-a0b1c2d1.m4a''],
        uuidCount = 2\<rparr>"
    by (intro verifyAndResplitChunks_next_pass) simp
  with stuck_never_returns [of _ n] st Suc show ?thesis by simp
qed

lemma segmentTimes_splitsAtHalf:
  "list_all (splitsAtHalf opts) ops \<Longrightarrow>
     list_all (\<lambda>t. t = max 1 (segmentDuration opts div 2)) (segmentTimes ops)"
  by (induction ops rule: segmentTimes.induct) simp_all

text \<open>
  Claim C5. The repair cycle is to halve the duration on each successive pass, so that
  the passes are bounded by the binary logarithm of the planned duration, and to terminate
  for every input, with an error when a segment cannot be brought under the limit. On the
  upload above the code does not. The planner gives 120 seconds.
  \<^verbatim>\<open>verifyAndResplitChunks\<close> calls itself with the \<^verbatim>\<open>options\<close> it was given, so
  however many calls it is allowed, every request to the split tool is at 60 seconds and
  the function has not returned, neither resolved nor with an error. The source comments
  the recursive call with \<^verbatim>\<open>Recursively verify until all chunks are compliant\<close>, and
  the floor of \<^verbatim>\<open>Math.max(1, ...)\<close> can only be reached by halving more than once,
  the planner's duration being at least 120.
\<close>

theorem repair_never_returns:
  "calculateOptimalChunkDuration 138240000 120 = Some 120
   \<and> fst (verifyAndResplitChunks fuel (uniformSplitTool 1152000) stuckOpts
        \<lparr>chunksDir = [(''s1-chunk-000.m4a'', 138240000)], fsTrace = [], uuidCount = 0\<rparr>)
       = None
   \<and> list_all (\<lambda>t. t = 60)
        (segmentTimes (fsTrace (snd (verifyAndResplitChunks fuel (uniformSplitTool 1152000)
           stuckOpts
           \<lparr>chunksDir = [(''s1-chunk-000.m4a'', 138240000)], fsTrace = [],
              uuidCount = 0\<rparr>))))"
proof (intro conjI)
  show "calculateOptimalChunkDuration 138240000 120 = Some 120"
    by (simp add: calculateOptimalChunkDuration_def MB_def MIN_CHUNK_DURATION_def
        MAX_CHUNK_DURATION_def)
next
  show "fst (verifyAndResplitChunks fuel (uniformSplitTool 1152000) stuckOpts
        \<lparr>chunksDir = [(''s1-chunk-000.m4a'', 138240000)], fsTrace = [], uuidCount = 0\<rparr>)
       = None"
    by (rule oversized_upload_never_returns)
next
  let ?st0 = "\<lparr>chunksDir = [(''s1-chunk-000.m4a'', 138240000)], fsTrace = [],
      uuidCount = 0\<rparr>"
  obtain r st' where run:
    "verifyAndResplitChunks fuel (uniformSplitTool 1152000) stuckOpts ?st0 = (r, st')"
    by (cases "verifyAndResplitChunks fuel (uniformSplitTool 1152000) stuckOpts ?st0")
  from verifyAndResplitChunks_trace [OF run] obtain ops where
    "fsTrace st' = ops" "list_all (splitsAtHalf stuckOpts) ops"
    by auto
  with segmentTimes_splitsAtHalf [of stuckOpts ops] run
  show "list_all (\<lambda>t. t = 60)
        (segmentTimes (fsTrace (snd (verifyAndResplitChunks fuel (uniformSplitTool 1152000)
           stuckOpts ?st0))))"
    by (simp add: stuckOpts_def)
qed

subsection \<open>Preservation by \<^verbatim>\<open>checkForMoreChunks\<close>\<close>

lemmas pool_defs = resWrite_def resEnd_def processChunkBegin_def recordFailure_def
  recordSuccess_def awaitTranscription_def finallyDecrement_def checkCompletion_def Let_def

lemma checkForMoreChunks_queue_length:
  "length (chunkQueue (checkForMoreChunks stat s)) \<le> length (chunkQueue s)"
proof (induction stat s rule: checkForMoreChunks.induct)
  case (1 stat s)
  show ?case
  proof (cases "chunkQueue s")
    case Nil
    then show ?thesis by (simp add: checkForMoreChunks.simps [of stat s])
  next
    case (Cons i rest)
    show ?thesis
    proof (cases "chunksBeingProcessed s < MAX_CONCURRENT_CHUNKS")
      case False
      with Cons show ?thesis by (simp add: checkForMoreChunks.simps [of stat s])
    next
      case True
      show ?thesis
      proof (cases "validateChunk stat i")
        case None
        from "1.IH"(1) [OF Cons True refl None] Cons True None
        show ?thesis by (simp add: checkForMoreChunks.simps [of stat s])
      next
        case (Some m)
        from "1.IH"(2) [OF Cons True refl Some] "1.IH"(3) [OF Cons True refl Some]
          Cons True Some
        show ?thesis by (simp add: checkForMoreChunks.simps [of stat s])
      qed
    qed
  qed
qed

lemma checkForMoreChunks_preserves:
  assumes ok: "\<And>s i rest. \<lbrakk>I s; chunkQueue s = i # rest;
        chunksBeingProcessed s < MAX_CONCURRENT_CHUNKS; validateChunk stat i = None\<rbrakk>
      \<Longrightarrow> I (awaitTranscription i (processChunkBegin i (s\<lparr>chunkQueue := rest\<rparr>)))"
    and bad: "\<And>s i rest m. \<lbrakk>I s; chunkQueue s = i # rest;
        chunksBeingProcessed s < MAX_CONCURRENT_CHUNKS; validateChunk stat i = Some m\<rbrakk>
      \<Longrightarrow> I (finallyDecrement (recordFailure i m (processChunkBegin i (s\<lparr>chunkQueue := rest\<rparr>))))"
    and cc: "\<And>s. I s \<Longrightarrow> I (checkCompletion s)"
  shows "I s \<Longrightarrow> I (checkForMoreChunks stat s)"
proof (induction "length (chunkQueue s)" arbitrary: s rule: less_induct)
  case less
  show ?case
  proof (cases "chunkQueue s")
    case Nil
    with less.prems show ?thesis by (simp add: checkForMoreChunks.simps [of stat s])
  next
    case (Cons i rest)
    show ?thesis
    proof (cases "chunksBeingProcessed s < MAX_CONCURRENT_CHUNKS")
      case False
      with less.prems Cons show ?thesis by (simp add: checkForMoreChunks.simps [of stat s])
    next
      case True
      show ?thesis
      proof (cases "validateChunk stat i")
        case None
        let ?s1 = "awaitTranscription i (processChunkBegin i (s\<lparr>chunkQueue := rest\<rparr>))"
        have "I ?s1"
          using less.prems Cons True None by (rule ok)
        moreover have "length (chunkQueue ?s1) < length (chunkQueue s)"
          using Cons by simp
        ultimately have "I (checkForMoreChunks stat ?s1)"
          using less.hyps by blast
        with Cons True None show ?thesis by (simp add: checkForMoreChunks.simps [of stat s])
      next
        case (Some m)
        let ?s3 = "finallyDecrement (recordFailure i m (processChunkBegin i (s\<lparr>chunkQueue := rest\<rparr>)))"
        have "I ?s3"
          using less.prems Cons True Some by (rule bad)
        moreover have len3: "length (chunkQueue ?s3) < length (chunkQueue s)"
          using Cons by simp
        ultimately have "I (checkForMoreChunks stat ?s3)"
          using less.hyps by blast
        then have "I (checkCompletion (checkForMoreChunks stat ?s3))"
          by (rule cc)
        moreover have "length (chunkQueue (checkCompletion (checkForMoreChunks stat ?s3)))
            < length (chunkQueue s)"
          using checkForMoreChunks_queue_length [of stat ?s3] len3 by simp
        ultimately have "I (checkForMoreChunks stat (checkCompletion (checkForMoreChunks stat ?s3)))"
          using less.hyps by blast
        with Cons True Some show ?thesis by (simp add: checkForMoreChunks.simps [of stat s])
      qed
    qed
  qed
qed

subsection \<open>At most three transcription calls in flight\<close>

lemma counters_checkCompletion: "counters s \<Longrightarrow> counters (checkCompletion s)"
  by (auto simp: counters_def checkCompletion_def)

lemma counters_checkForMoreChunks: "counters s \<Longrightarrow> counters (checkForMoreChunks stat s)"
proof (rule checkForMoreChunks_preserves [where I = counters])
  show "\<And>s i rest. \<lbrakk>counters s; chunkQueue s = i # rest;
        chunksBeingProcessed s < MAX_CONCURRENT_CHUNKS; validateChunk stat i = None\<rbrakk>
      \<Longrightarrow> counters (awaitTranscription i (processChunkBegin i (s\<lparr>chunkQueue := rest\<rparr>)))"
    by (auto simp: counters_def pool_defs)
  show "\<And>s i rest m. \<lbrakk>counters s; chunkQueue s = i # rest;
        chunksBeingProcessed s < MAX_CONCURRENT_CHUNKS; validateChunk stat i = Some m\<rbrakk>
      \<Longrightarrow> counters (finallyDecrement (recordFailure i m (processChunkBegin i (s\<lparr>chunkQueue := rest\<rparr>))))"
    by (auto simp: counters_def pool_defs)
qed (auto intro: counters_checkCompletion)

lemma counters_handleLargeFileSettled: "counters s \<Longrightarrow> counters (handleLargeFileSettled s)"
  by (auto simp: counters_def handleLargeFileSettled_def pool_defs split: settled.splits)

lemma counters_watcherTick: "counters s \<Longrightarrow> counters (watcherTick env listing s)"
proof -
  assume c: "counters s"
  show ?thesis
  proof (cases "chunkWatcher s \<and> \<not> isSplittingComplete s \<and> totalChunks s < length (sort listing)")
    case True
    have "counters (s\<lparr>chunkQueue := chunkQueue s @ drop (totalChunks s) (sort listing),
               totalChunks := length (sort listing)\<rparr>)"
      using c True by (auto simp: counters_def)
    from counters_checkForMoreChunks [OF this] True
    show ?thesis by (simp add: watcherTick_def Let_def)
  next
    case False
    with c show ?thesis by (auto simp: watcherTick_def Let_def counters_def)
  qed
qed

lemma counters_settle:
  assumes "counters s" and "i \<in> set (inFlight s)"
  shows "counters (finallyDecrement (recordSuccess i t (s\<lparr>inFlight := remove1 i (inFlight s)\<rparr>)))"
    and "counters (finallyDecrement (recordFailure i m (s\<lparr>inFlight := remove1 i (inFlight s)\<rparr>)))"
    and "0 < totalChunks s"
proof -
  have len: "Suc (length (remove1 i (inFlight s))) = length (inFlight s)"
    using assms(2) length_pos_if_in_set [of i "inFlight s"] by (simp add: length_remove1)
  show "counters (finallyDecrement (recordSuccess i t (s\<lparr>inFlight := remove1 i (inFlight s)\<rparr>)))"
    using assms(1) len by (auto simp: counters_def pool_defs)
  show "counters (finallyDecrement (recordFailure i m (s\<lparr>inFlight := remove1 i (inFlight s)\<rparr>)))"
    using assms(1) len by (auto simp: counters_def pool_defs)
  show "0 < totalChunks s"
    using assms(1) len by (auto simp: counters_def)
qed

lemma counters_processChunkSettled: "counters s \<Longrightarrow> counters (processChunkSettled env i s)"
proof -
  assume c: "counters s"
  show ?thesis
  proof (cases "i \<in> set (inFlight s)")
    case False
    with c show ?thesis by (simp add: processChunkSettled_def)
  next
    case True
    define s2 where "s2 = (case transcribeWithRetry (createTranscription env i) 0 of
                    Inr text \<Rightarrow> recordSuccess i text (s\<lparr>inFlight := remove1 i (inFlight s)\<rparr>)
                  | Inl message \<Rightarrow> recordFailure i message (s\<lparr>inFlight := remove1 i (inFlight s)\<rparr>))"
    have "counters (finallyDecrement s2)"
      using counters_settle(1,2) [OF c True] by (simp add: s2_def split: sum.splits)
    then have "counters (processChunkFinally (statSync env) s2)"
      unfolding processChunkFinally_def
      by (intro counters_checkCompletion counters_checkForMoreChunks)
    with True show ?thesis by (simp add: processChunkSettled_def s2_def Let_def)
  qed
qed

lemma counters_splitEnd: "counters s \<Longrightarrow> counters (splitEnd s)"
  by (auto simp: splitEnd_def counters_def checkCompletion_def)

lemma counters_splitError: "counters s \<Longrightarrow> counters (splitError m s)"
  by (auto simp: splitError_def counters_def Let_def)

lemma counters_poolStep: "counters s \<Longrightarrow> counters (poolStep env s e)"
  by (cases e) (auto intro: counters_handleLargeFileSettled counters_watcherTick
      counters_processChunkSettled counters_splitEnd counters_splitError)

lemma counters_runPool: "counters s \<Longrightarrow> counters (runPool env events s)"
  unfolding runPool_def
  by (induction events arbitrary: s) (auto intro: counters_poolStep)

lemma counters_processChunks: "counters (processChunks written)"
  by (simp add: counters_def processChunks_def)

text \<open>
  Claim C8. After every sequence of events (ticks of the watcher that discover chunks,
  returns of transcription calls, the end or the failure of the split tool), in every
  order, the counter \<^verbatim>\<open>chunksBeingProcessed\<close> is at most
  \<^verbatim>\<open>MAX_CONCURRENT_CHUNKS\<close> = 3, and it is the number of calls of \<^verbatim>\<open>processChunk\<close>
  that are suspended at the transcription service.
\<close>

theorem in_flight_bounded:
  "chunksBeingProcessed (runPool env events (processChunks written)) \<le> MAX_CONCURRENT_CHUNKS
   \<and> chunksBeingProcessed (runPool env events (processChunks written)) \<le> 3
   \<and> length (inFlight (runPool env events (processChunks written)))
       = chunksBeingProcessed (runPool env events (processChunks written))"
  using counters_runPool [OF counters_processChunks, of env events written]
  by (simp add: counters_def MAX_CONCURRENT_CHUNKS_def)

theorem in_flight_bounded_witness:
  "chunksBeingProcessed (runPool steadyService [WatcherTick [0, 1, 2, 3, 4]] (processChunks []))
     = 3
   \<and> chunkQueue (runPool steadyService [WatcherTick [0, 1, 2, 3, 4]] (processChunks []))
     = [3, 4]
   \<and> chunksBeingProcessed
         (runPool steadyService [WatcherTick [0, 1, 2, 3, 4]] (processChunks []))
       \<le> MAX_CONCURRENT_CHUNKS"
proof -
  have "chunksBeingProcessed
      (runPool steadyService [WatcherTick [0, 1, 2, 3, 4]] (processChunks [])) = 3"
    and "chunkQueue (runPool steadyService [WatcherTick [0, 1, 2, 3, 4]] (processChunks []))
      = [3, 4]"
    by code_simp+
  with in_flight_bounded [of steadyService "[WatcherTick [0, 1, 2, 3, 4]]" "[]"]
  show ?thesis by blast
qed

subsection \<open>The progress percentages\<close>



lemma streamOK_same:
  assumes "streamOK s" and "res s' = res s" and "resEnded s' = resEnded s"
    and "streamBound s \<le> streamBound s'"
  shows "streamOK s'"
  using assms unfolding streamOK_def by (metis order_trans)





lemma totalChunks_pieces [simp]:
  "totalChunks (processChunkBegin i s) = totalChunks s"
  "totalChunks (recordFailure i m s) = totalChunks s"
  "totalChunks (recordSuccess i t s) = totalChunks s"
  "totalChunks (awaitTranscription i s) = totalChunks s"
  "totalChunks (finallyDecrement s) = totalChunks s"
  "totalChunks (checkCompletion s) = totalChunks s"
  by (simp_all add: pool_defs)
















subsection \<open>The ledger of results and the settling of the promise\<close>

lemma booked_checkCompletion: "booked env s \<Longrightarrow> booked env (checkCompletion s)"
  unfolding booked_def
proof (intro conjI)
  assume a: "counters s \<and> ledger env s"
  then show "counters (checkCompletion s)" by (auto intro: counters_checkCompletion)
  show "ledger env (checkCompletion s)"
  proof (cases "isSplittingComplete s \<and> processedChunks s = totalChunks s \<and> promise s = Pending")
    case False
    with a show ?thesis by (auto simp: checkCompletion_def)
  next
    case True
    with a have "chunkQueue s = []" "inFlight s = []"
      by (auto simp: counters_def)
    with a True show ?thesis
      by (auto simp: checkCompletion_def ledger_def)
  qed
qed

lemma booked_checkForMoreChunks:
  "booked env s \<Longrightarrow> booked env (checkForMoreChunks (statSync env) s)"
proof (rule checkForMoreChunks_preserves [where I = "booked env"])
  fix s i rest
  assume a: "booked env s" "chunkQueue s = i # rest"
    "chunksBeingProcessed s < MAX_CONCURRENT_CHUNKS"
  from a have notres: "\<And>c. promise s \<noteq> ResolvedWith c"
    by (auto simp: booked_def ledger_def)
  {
    assume v: "validateChunk (statSync env) i = None"
    have "counters (awaitTranscription i (processChunkBegin i (s\<lparr>chunkQueue := rest\<rparr>)))"
      using a by (auto simp: booked_def counters_def pool_defs)
    moreover have "ledger env (awaitTranscription i (processChunkBegin i (s\<lparr>chunkQueue := rest\<rparr>)))"
      using a v notres unfolding booked_def ledger_def
      by (auto simp: pool_defs)
    ultimately show "booked env (awaitTranscription i (processChunkBegin i (s\<lparr>chunkQueue := rest\<rparr>)))"
      by (simp add: booked_def)
  }
  {
    fix m
    assume v: "validateChunk (statSync env) i = Some m"
    have "counters (finallyDecrement (recordFailure i m (processChunkBegin i (s\<lparr>chunkQueue := rest\<rparr>))))"
      using a by (auto simp: booked_def counters_def pool_defs)
    moreover have "ledger env (finallyDecrement (recordFailure i m (processChunkBegin i (s\<lparr>chunkQueue := rest\<rparr>))))"
      using a v notres unfolding booked_def ledger_def
      by (auto simp: pool_defs terminalResult_def)
    ultimately show "booked env (finallyDecrement (recordFailure i m (processChunkBegin i (s\<lparr>chunkQueue := rest\<rparr>))))"
      by (simp add: booked_def)
  }
next
  show "\<And>s. booked env s \<Longrightarrow> booked env (checkCompletion s)"
    by (rule booked_checkCompletion)
qed

lemma booked_handleLargeFileSettled: "booked env s \<Longrightarrow> booked env (handleLargeFileSettled s)"
  by (auto simp: booked_def counters_def ledger_def handleLargeFileSettled_def resWrite_def
      resEnd_def split: settled.splits)

lemma booked_watcherTick:
  assumes "booked env s" and "sort listing = [0..<length listing]"
  shows "booked env (watcherTick env listing s)"
proof (cases "chunkWatcher s \<and> \<not> isSplittingComplete s \<and> totalChunks s < length (sort listing)")
  case True
  let ?s' = "s\<lparr>chunkQueue := chunkQueue s @ drop (totalChunks s) (sort listing),
               totalChunks := length (sort listing)\<rparr>"
  have dr: "drop (totalChunks s) (sort listing) = [totalChunks s..<length listing]"
    using assms(2) by (simp add: drop_upt)
  have "counters ?s'"
    using assms(1) True by (auto simp: booked_def counters_def)
  moreover have "ledger env ?s'"
  proof -
    from assms(1) have l: "ledger env s" by (simp add: booked_def)
    let ?T = "totalChunks s" and ?L = "length listing"
    from l have un: "set (chunkQueue s) \<union> set (inFlight s) \<union> dom (transcriptionResults s)
        = {0..<?T}"
      by (simp add: ledger_def)
    then have sub: "set (chunkQueue s) \<subseteq> {0..<?T}" "set (inFlight s) \<subseteq> {0..<?T}"
        "dom (transcriptionResults s) \<subseteq> {0..<?T}"
      by blast+
    from True have less: "?T < ?L" by simp
    from l have d: "distinct (chunkQueue s @ inFlight s)"
      and dj: "(set (chunkQueue s) \<union> set (inFlight s)) \<inter> dom (transcriptionResults s) = {}"
      by (simp_all add: ledger_def)
    have 1: "distinct ((chunkQueue s @ [?T..<?L]) @ inFlight s)"
      using d sub(1,2) by fastforce
    have "{0..<?T} \<union> {?T..<?L} = {0..<?L}"
      using less by auto
    with un have 2: "set (chunkQueue s @ [?T..<?L]) \<union> set (inFlight s)
        \<union> dom (transcriptionResults s) = {0..<?L}"
      by auto
    have 3: "(set (chunkQueue s @ [?T..<?L]) \<union> set (inFlight s))
        \<inter> dom (transcriptionResults s) = {}"
      using dj sub(3) by fastforce
    from l True have 4: "\<And>c. promise s \<noteq> ResolvedWith c"
      by (auto simp: ledger_def)
    show ?thesis
      unfolding ledger_def dr
      using 1 2 3 4 l True by (simp add: ledger_def)
  qed
  ultimately have "booked env (checkForMoreChunks (statSync env) ?s')"
    by (intro booked_checkForMoreChunks) (simp add: booked_def)
  with True show ?thesis by (simp add: watcherTick_def Let_def)
next
  case False
  with assms(1) show ?thesis
    by (auto simp: watcherTick_def Let_def booked_def counters_def ledger_def)
qed

lemma ledger_settle:
  assumes l: "ledger env s" and i: "i \<in> set (inFlight s)"
    and t: "t = terminalResult env i"
  shows "ledger env (s\<lparr>inFlight := remove1 i (inFlight s),
           transcriptionResults := (transcriptionResults s)(i \<mapsto> t)\<rparr>)"
proof -
  from l have d: "distinct (chunkQueue s @ inFlight s)"
    and un: "set (chunkQueue s) \<union> set (inFlight s) \<union> dom (transcriptionResults s)
        = {0..<totalChunks s}"
    and dj: "(set (chunkQueue s) \<union> set (inFlight s)) \<inter> dom (transcriptionResults s) = {}"
    by (simp_all add: ledger_def)
  from d have rm: "set (remove1 i (inFlight s)) = set (inFlight s) - {i}"
    by simp
  from d i have iq: "i \<notin> set (chunkQueue s)" by auto
  have 1: "distinct (chunkQueue s @ remove1 i (inFlight s))"
    using d by auto
  have 2: "set (chunkQueue s) \<union> set (remove1 i (inFlight s))
      \<union> dom ((transcriptionResults s)(i \<mapsto> t)) = {0..<totalChunks s}"
    using un i unfolding rm by auto
  have 3: "(set (chunkQueue s) \<union> set (remove1 i (inFlight s)))
      \<inter> dom ((transcriptionResults s)(i \<mapsto> t)) = {}"
    using dj iq unfolding rm by auto
  from l i have 4: "\<And>c. promise s \<noteq> ResolvedWith c"
    by (auto simp: ledger_def)
  show ?thesis
    unfolding ledger_def
    using 1 2 3 4 l t by (auto simp: ledger_def rm)
qed

lemma ledger_frame:
  "ledger env (resWrite e s) = ledger env s"
  "ledger env (finallyDecrement s) = ledger env s"
  "ledger env (s\<lparr>processedChunks := n\<rparr>) = ledger env s"
  by (simp_all add: ledger_def resWrite_def finallyDecrement_def)

lemma booked_processChunkSettled: "booked env s \<Longrightarrow> booked env (processChunkSettled env i s)"
proof -
  assume b: "booked env s"
  show ?thesis
  proof (cases "i \<in> set (inFlight s)")
    case False
    with b show ?thesis by (simp add: processChunkSettled_def)
  next
    case True
    from b have c: "counters s" and l: "ledger env s" by (simp_all add: booked_def)
    from l True have v: "validateChunk (statSync env) i = None"
      by (simp add: ledger_def)
    let ?s1 = "s\<lparr>inFlight := remove1 i (inFlight s)\<rparr>"
    define s2 where "s2 = (case transcribeWithRetry (createTranscription env i) 0 of
                    Inr text \<Rightarrow> recordSuccess i text ?s1
                  | Inl message \<Rightarrow> recordFailure i message ?s1)"
    have "counters (finallyDecrement s2)"
      using counters_settle(1,2) [OF c True] by (simp add: s2_def split: sum.splits)
    moreover have "ledger env (finallyDecrement s2)"
    proof (cases "transcribeWithRetry (createTranscription env i) 0")
      case (Inl message)
      then have t: "errorPlaceholder i message = terminalResult env i"
        using v by (simp add: terminalResult_def)
      from ledger_settle [OF l True t] Inl show ?thesis
        by (simp add: s2_def ledger_frame recordFailure_def Let_def)
    next
      case (Inr tx)
      then have t: "tx = terminalResult env i"
        using v by (simp add: terminalResult_def)
      from ledger_settle [OF l True t] Inr show ?thesis
        by (simp add: s2_def ledger_frame recordSuccess_def Let_def)
    qed
    ultimately have "booked env (finallyDecrement s2)"
      by (simp add: booked_def)
    then have "booked env (processChunkFinally (statSync env) s2)"
      unfolding processChunkFinally_def
      by (intro booked_checkCompletion booked_checkForMoreChunks)
    with True show ?thesis by (simp add: processChunkSettled_def s2_def Let_def)
  qed
qed

lemma booked_splitEnd: "booked env s \<Longrightarrow> booked env (splitEnd s)"
proof (cases "splitRunning s")
  case False
  assume "booked env s"
  with False show ?thesis by (simp add: splitEnd_def)
next
  case True
  assume b: "booked env s"
  with True have "booked env
      (s\<lparr>splitRunning := False, isSplittingComplete := True, chunkWatcher := False\<rparr>)"
    by (auto simp: booked_def counters_def ledger_def)
  from booked_checkCompletion [OF this] True show ?thesis
    by (simp add: splitEnd_def)
qed

lemma booked_splitError: "booked env s \<Longrightarrow> booked env (splitError m s)"
  by (auto simp: booked_def counters_def ledger_def splitError_def Let_def)

lemma booked_poolStep:
  "booked env s \<Longrightarrow> denseListing e \<Longrightarrow> booked env (poolStep env s e)"
  by (cases e)
    (auto intro!: booked_handleLargeFileSettled booked_watcherTick booked_processChunkSettled
       booked_splitEnd booked_splitError)

lemma booked_runPool:
  "booked env s \<Longrightarrow> list_all denseListing events \<Longrightarrow> booked env (runPool env events s)"
  unfolding runPool_def
  by (induction events arbitrary: s) (auto intro: booked_poolStep)

lemma booked_processChunks: "booked env (processChunks written)"
  by (simp add: booked_def counters_processChunks) (simp add: ledger_def processChunks_def)

lemma checkForMoreChunks_saturates:
  "chunkQueue (checkForMoreChunks stat s) = []
    \<or> MAX_CONCURRENT_CHUNKS \<le> chunksBeingProcessed (checkForMoreChunks stat s)"
proof (induction stat s rule: checkForMoreChunks.induct)
  case (1 stat s)
  show ?case
  proof (cases "chunkQueue s")
    case Nil
    then show ?thesis by (simp add: checkForMoreChunks.simps [of stat s])
  next
    case (Cons i rest)
    show ?thesis
    proof (cases "chunksBeingProcessed s < MAX_CONCURRENT_CHUNKS")
      case False
      with Cons show ?thesis by (simp add: checkForMoreChunks.simps [of stat s])
    next
      case True
      show ?thesis
      proof (cases "validateChunk stat i")
        case None
        from "1.IH"(1) [OF Cons True refl None] Cons True None
        show ?thesis by (simp add: checkForMoreChunks.simps [of stat s])
      next
        case (Some m)
        from "1.IH"(3) [OF Cons True refl Some] Cons True Some
        show ?thesis by (simp add: checkForMoreChunks.simps [of stat s])
      qed
    qed
  qed
qed

lemma isSplittingComplete_checkForMoreChunks:
  "isSplittingComplete (checkForMoreChunks stat s) = isSplittingComplete s"
proof -
  have "isSplittingComplete s = isSplittingComplete s \<Longrightarrow>
      isSplittingComplete (checkForMoreChunks stat s) = isSplittingComplete s"
    by (rule checkForMoreChunks_preserves
        [where I = "\<lambda>s'. isSplittingComplete s' = isSplittingComplete s"])
      (simp_all add: pool_defs)
  then show ?thesis by simp
qed

lemma framed_refl: "framed s s"
  by (simp add: framed_def)

lemma framed_checkCompletion: "framed s0 s \<Longrightarrow> framed s0 (checkCompletion s)"
  by (auto simp: framed_def checkCompletion_def)

lemma framed_checkForMoreChunks: "framed s0 s \<Longrightarrow> framed s0 (checkForMoreChunks stat s)"
  by (rule checkForMoreChunks_preserves [where I = "framed s0"])
    (auto simp: framed_def pool_defs)

lemma framed_watcherTick: "framed s (watcherTick env listing s)"
proof (cases "chunkWatcher s \<and> \<not> isSplittingComplete s \<and> totalChunks s < length (sort listing)")
  case True
  have "framed s (s\<lparr>chunkQueue := chunkQueue s @ drop (totalChunks s) (sort listing),
               totalChunks := length (sort listing)\<rparr>)"
    by (simp add: framed_def)
  from framed_checkForMoreChunks [OF this] True show ?thesis
    by (simp add: watcherTick_def Let_def)
next
  case False
  then show ?thesis by (auto simp: watcherTick_def Let_def framed_def)
qed

lemma framed_processChunkSettled: "framed s (processChunkSettled env i s)"
proof (cases "i \<in> set (inFlight s)")
  case False
  then show ?thesis by (simp add: processChunkSettled_def framed_refl)
next
  case True
  define s2 where "s2 = (case transcribeWithRetry (createTranscription env i) 0 of
                    Inr text \<Rightarrow> recordSuccess i text (s\<lparr>inFlight := remove1 i (inFlight s)\<rparr>)
                  | Inl message \<Rightarrow> recordFailure i message (s\<lparr>inFlight := remove1 i (inFlight s)\<rparr>))"
  have "framed s (finallyDecrement s2)"
    by (auto simp: s2_def framed_def pool_defs split: sum.splits)
  then have "framed s (processChunkFinally (statSync env) s2)"
    unfolding processChunkFinally_def
    by (intro framed_checkCompletion framed_checkForMoreChunks)
  with True show ?thesis by (simp add: processChunkSettled_def s2_def Let_def)
qed

lemma framed_splitEnd: "framed s (splitEnd s)"
  by (auto simp: splitEnd_def framed_def checkCompletion_def)

lemma framed_splitError: "framed s (splitError m s)"
  by (auto simp: splitError_def framed_def Let_def)

lemma quiescent_handleLargeFileSettled:
  assumes q: "quiescent s" and f: "framed s s'"
    and a: "chunkQueue s' = [] \<or> MAX_CONCURRENT_CHUNKS \<le> chunksBeingProcessed s'"
    and b: "isSplittingComplete s' \<and> processedChunks s' = totalChunks s' \<longrightarrow> promise s' \<noteq> Pending"
  shows "quiescent (handleLargeFileSettled s')"
proof (cases "resEnded s")
  case True
  with q f have "resEnded s'" "promise s' = promise s" "res s' = res s" "promise s \<noteq> Pending"
    by (auto simp: quiescent_def framed_def)
  with q a b show ?thesis
    by (auto simp: quiescent_def handleLargeFileSettled_def resWrite_def resEnd_def
        split: settled.splits)
next
  case False
  with f have "\<not> resEnded s'" by (simp add: framed_def)
  with a b show ?thesis
    by (auto simp: quiescent_def handleLargeFileSettled_def resWrite_def resEnd_def
        split: settled.splits)
qed

lemma quiescent_poolStep: "quiescent s \<Longrightarrow> quiescent (poolStep env s e)"
proof (cases e)
  case (WatcherTick listing)
  assume q: "quiescent s"
  have "quiescent (handleLargeFileSettled (watcherTick env listing s))"
  proof (rule quiescent_handleLargeFileSettled [OF q framed_watcherTick])
    show "chunkQueue (watcherTick env listing s) = []
        \<or> MAX_CONCURRENT_CHUNKS \<le> chunksBeingProcessed (watcherTick env listing s)"
      using q checkForMoreChunks_saturates
      by (auto simp: watcherTick_def Let_def quiescent_def)
    show "isSplittingComplete (watcherTick env listing s)
        \<and> processedChunks (watcherTick env listing s) = totalChunks (watcherTick env listing s)
        \<longrightarrow> promise (watcherTick env listing s) \<noteq> Pending"
      using q
      by (auto simp: watcherTick_def Let_def quiescent_def isSplittingComplete_checkForMoreChunks)
  qed
  with WatcherTick show ?thesis by simp
next
  case (TranscriptionSettled i)
  assume q: "quiescent s"
  have "quiescent (handleLargeFileSettled (processChunkSettled env i s))"
  proof (rule quiescent_handleLargeFileSettled [OF q framed_processChunkSettled])
    show "chunkQueue (processChunkSettled env i s) = []
        \<or> MAX_CONCURRENT_CHUNKS \<le> chunksBeingProcessed (processChunkSettled env i s)"
      using q checkForMoreChunks_saturates
      by (auto simp: processChunkSettled_def processChunkFinally_def Let_def quiescent_def
          checkCompletion_def)
    show "isSplittingComplete (processChunkSettled env i s)
        \<and> processedChunks (processChunkSettled env i s) = totalChunks (processChunkSettled env i s)
        \<longrightarrow> promise (processChunkSettled env i s) \<noteq> Pending"
      using q
      by (auto simp: processChunkSettled_def processChunkFinally_def Let_def quiescent_def
          checkCompletion_def)
  qed
  with TranscriptionSettled show ?thesis by simp
next
  case SplitEnd
  assume q: "quiescent s"
  have "quiescent (handleLargeFileSettled (splitEnd s))"
    by (rule quiescent_handleLargeFileSettled [OF q framed_splitEnd])
      (use q in \<open>auto simp: splitEnd_def quiescent_def checkCompletion_def\<close>)
  with SplitEnd show ?thesis by simp
next
  case (SplitError m)
  assume q: "quiescent s"
  have "quiescent (handleLargeFileSettled (splitError m s))"
    by (rule quiescent_handleLargeFileSettled [OF q framed_splitError])
      (use q in \<open>auto simp: splitError_def quiescent_def Let_def\<close>)
  with SplitError show ?thesis by simp
qed

lemma quiescent_runPool: "quiescent s \<Longrightarrow> quiescent (runPool env events s)"
  unfolding runPool_def
  by (induction events arbitrary: s) (auto intro: quiescent_poolStep)

lemma quiescent_processChunks: "quiescent (processChunks written)"
  by (simp add: quiescent_def processChunks_def)

lemma combinedResults_all:
  "\<forall>i \<in> set js. results i = Some (f i) \<Longrightarrow>
     combinedResults results js = filter (\<lambda>t. t \<noteq> []) (map f js)"
  by (induction js) auto

lemma transcribeWithRetry_exhausted:
  assumes "\<forall>a \<le> maxRetries. create a = Inl (errors a)"
  shows "transcribeWithRetry create 0 = Inl (errors maxRetries)"
proof -
  from assms have "create 0 = Inl (errors 0)" "create (Suc 0) = Inl (errors (Suc 0))"
    "create (Suc (Suc 0)) = Inl (errors (Suc (Suc 0)))"
    by (simp_all add: maxRetries_def)
  then show ?thesis
    by (simp add: transcribeWithRetry.simps [of create 0]
        transcribeWithRetry.simps [of create "Suc 0"]
        transcribeWithRetry.simps [of create "Suc (Suc 0)"] maxRetries_def numeral_2_eq_2)
qed

lemma pool_completes:
  assumes dense: "list_all denseListing events"
    and sF: "sF = runPool env events (processChunks written)"
    and fin: "isSplittingComplete sF" "inFlight sF = []"
  shows "promise sF = ResolvedWith (joinWith '' ''
            (filter (\<lambda>t. t \<noteq> []) (map (terminalResult env) [0..<totalChunks sF])))"
    and "res sF \<noteq> [] \<and> last (res sF) = CompleteEvent (joinWith '' ''
            (filter (\<lambda>t. t \<noteq> []) (map (terminalResult env) [0..<totalChunks sF]))) 100"
    and "processedChunks sF = totalChunks sF"
    and "\<forall>i < totalChunks sF. transcriptionResults sF i = Some (terminalResult env i)"
proof -
  have b: "booked env sF"
    unfolding sF by (rule booked_runPool [OF booked_processChunks dense])
  have q: "quiescent sF"
    unfolding sF by (rule quiescent_runPool [OF quiescent_processChunks])
  from b have c: "counters sF" and l: "ledger env sF" by (simp_all add: booked_def)
  from c fin(2) have zero: "chunksBeingProcessed sF = 0" by (simp add: counters_def)
  with q have queue: "chunkQueue sF = []"
    by (auto simp: quiescent_def MAX_CONCURRENT_CHUNKS_def)
  with c fin(2) show p: "processedChunks sF = totalChunks sF"
    by (simp add: counters_def)
  from l queue fin(2) have "dom (transcriptionResults sF) = {0..<totalChunks sF}"
    by (simp add: ledger_def)
  then have "\<forall>i < totalChunks sF. \<exists>t. transcriptionResults sF i = Some t"
    by (metis atLeastLessThan_iff domD le0)
  with l show all: "\<forall>i < totalChunks sF. transcriptionResults sF i = Some (terminalResult env i)"
    by (auto simp: ledger_def)
  then have cr: "combinedResults (transcriptionResults sF) [0..<totalChunks sF]
      = filter (\<lambda>t. t \<noteq> []) (map (terminalResult env) [0..<totalChunks sF])"
    by (intro combinedResults_all) simp
  from q fin(1) p have "promise sF \<noteq> Pending" by (simp add: quiescent_def)
  moreover from l fin(1) have "\<And>m. promise sF \<noteq> RejectedWith m"
    by (auto simp: ledger_def)
  ultimately obtain c' where c': "promise sF = ResolvedWith c'"
    by (cases "promise sF") auto
  with l cr have "c' = joinWith '' ''
      (filter (\<lambda>t. t \<noteq> []) (map (terminalResult env) [0..<totalChunks sF]))"
    by (simp add: ledger_def)
  with c' show "promise sF = ResolvedWith (joinWith '' ''
      (filter (\<lambda>t. t \<noteq> []) (map (terminalResult env) [0..<totalChunks sF])))"
    by simp
  with q show "res sF \<noteq> [] \<and> last (res sF) = CompleteEvent (joinWith '' ''
            (filter (\<lambda>t. t \<noteq> []) (map (terminalResult env) [0..<totalChunks sF]))) 100"
    by (simp add: quiescent_def)
qed

subsection \<open>The transcript in index order\<close>

text \<open>
  Three chunks are transcribed successfully, chunk 1 as the empty text (a silent segment).
  \<^verbatim>\<open>checkCompletion\<close> skips the empty text, so the transcript is \<open>a b\<close> with one space,
  whereas the three texts joined by a space are \<open>a\<close>, two spaces, \<open>b\<close>.
\<close>

lemma empty_text_is_skipped:
  "promise (runPool
       \<lparr>statSync = (\<lambda>i. Some 1000),
        createTranscription = (\<lambda>i a. Inr ([''a'', [], ''b''] ! i))\<rparr>
       sampleEvents (processChunks []))
     = ResolvedWith ''a b''
   \<and> joinWith '' '' (map (\<lambda>i. [''a'', [], ''b''] ! i) [0..<3]) = ''a  b''"
  by code_simp

lemma steadyService_succeeds:
  "validateChunk (statSync steadyService) i = None
    \<and> transcribeWithRetry (createTranscription steadyService i) 0 = Inr (''text'' @ showNat i)"
  by (simp add: steadyService_def validateChunk_def transcribeWithRetry.simps [of _ 0]
      maxRetries_def)

text \<open>
  On chunks numbered \<open>0, \<dots>, N - 1\<close>, as the output pattern \<^verbatim>\<open>chunk-%03d\<close> numbers
  them, the transcript is complete. When each chunk passes the checks of its file and is
  transcribed within the retries, the split tool has ended and every call has returned,
  then, in whatever order the events arrived, the promise is resolved with the non-empty
  texts in ascending index order joined by single spaces, and the final event of the
  stream carries that transcript.
\<close>

lemma transcript_in_index_order:
  assumes "list_all denseListing events"
    and "sF = runPool env events (processChunks written)"
    and "isSplittingComplete sF" and "inFlight sF = []"
    and "\<forall>i < totalChunks sF. validateChunk (statSync env) i = None
           \<and> transcribeWithRetry (createTranscription env i) 0 = Inr (texts i)"
  shows "promise sF = ResolvedWith
           (joinWith '' '' (filter (\<lambda>t. t \<noteq> []) (map texts [0..<totalChunks sF])))
       \<and> last (res sF) = CompleteEvent
           (joinWith '' '' (filter (\<lambda>t. t \<noteq> []) (map texts [0..<totalChunks sF]))) 100"
proof -
  from assms(5) have "map (terminalResult env) [0..<totalChunks sF] = map texts [0..<totalChunks sF]"
    by (simp add: terminalResult_def)
  with pool_completes(1,2) [OF assms(1-4)] show ?thesis by simp
qed

lemma transcript_in_index_order_example:
  "list_all denseListing sampleEvents
   \<and> isSplittingComplete (runPool steadyService sampleEvents (processChunks []))
   \<and> inFlight (runPool steadyService sampleEvents (processChunks [])) = []
   \<and> promise (runPool steadyService sampleEvents (processChunks []))
       = ResolvedWith ''text0 text1 text2''
   \<and> last (res (runPool steadyService sampleEvents (processChunks [])))
       = CompleteEvent ''text0 text1 text2'' 100"
proof -
  let ?sF = "runPool steadyService sampleEvents (processChunks [])"
  have dense: "list_all denseListing sampleEvents" by code_simp
  have ended: "isSplittingComplete ?sF" by code_simp
  have idle: "inFlight ?sF = []" by code_simp
  have ok: "\<forall>i < totalChunks ?sF. validateChunk (statSync steadyService) i = None
      \<and> transcribeWithRetry (createTranscription steadyService i) 0 = Inr (''text'' @ showNat i)"
    using steadyService_succeeds by simp
  have joined: "joinWith '' ''
      (filter (\<lambda>t. t \<noteq> []) (map (\<lambda>i. ''text'' @ showNat i) [0..<totalChunks ?sF]))
      = ''text0 text1 text2''"
    by code_simp
  note result = transcript_in_index_order [OF dense refl ended idle ok, unfolded joined]
  from dense ended idle result show ?thesis by blast
qed

text \<open>
  Claim C1. The transcript is to be the texts of all discovered chunks in ascending index
  order, whatever the order in which the calls return. The code stores each text under
  the number read from the file name (\<^verbatim>\<open>Store result by index to maintain order\<close>),
  but \<^verbatim>\<open>checkCompletion\<close> collects the results at \<open>0, \<dots>, totalChunks - 1\<close>, the
  count of the discovered files, and reports the others as missing. The two agree only
  when the numbers have no gap, and the repair gives its pieces names whose number is the
  leading digits of a fresh identifier. In the sample session the planner gives ten
  minutes, the repair returns with the four files numbered 0, 1, 5 and 7, all four chunks
  are transcribed at the first attempt and counted as processed, and the promise is
  resolved with \<open>text0 text1\<close>: the texts of chunks 5 and 7 are stored and left out.
\<close>

theorem sparse_numbers_lose_texts:
  "calculateOptimalChunkDuration 75400000 1800 = Some 600
   \<and> verifyAndResplitChunks 2 repairedTool repairedOpts
        \<lparr>chunksDir = [(''s1-chunk-000.m4a'', 23700000), (''s1-chunk-001.m4a'', 23700000),
            (''s1-chunk-002.m4a'', 28000000)], fsTrace = [], uuidCount = 0\<rparr>
      = (Some Resolved,
         \<lparr>chunksDir = [(''s1-chunk-000.m4a'', 23700000), (''s1-chunk-001.m4a'', 23700000),
             (''s1-chunk-5a0b1c2d.m4a'', 14000100), (''s1-chunk-7e3f9a10.m4a'', 13999900)],
          fsTrace = [FfmpegSegment ''s1-chunk-002.m4a'' 300, UnlinkSync ''s1-chunk-002.m4a'',
            RenameSync ''s1-chunk-002-sub-000.m4a'' ''s1-chunk-5a0b1c2d.m4a'',
            RenameSync ''s1-chunk-002-sub-001.m4a'' ''s1-chunk-7e3f9a10.m4a''],
          uuidCount = 2\<rparr>)
   \<and> map chunkIndex repairedNames = [Some 0, Some 1, Some 5, Some 7]
   \<and> promise (runPool steadyService repairedEvents (processChunks []))
       = ResolvedWith ''text0 text1''
   \<and> last (res (runPool steadyService repairedEvents (processChunks [])))
       = CompleteEvent ''text0 text1'' 100
   \<and> map (transcriptionResults (runPool steadyService repairedEvents (processChunks [])))
        [0, 1, 5, 7] = [Some ''text0'', Some ''text1'', Some ''text5'', Some ''text7'']
   \<and> processedChunks (runPool steadyService repairedEvents (processChunks [])) = 4
   \<and> totalChunks (runPool steadyService repairedEvents (processChunks [])) = 4
   \<and> joinWith '' '' [''text0'', ''text1'', ''text5'', ''text7''] = ''text0 text1 text5 text7''"
  by code_simp

text \<open>
  The pieces are lost whenever the tick comes. When the tick comes after the split tool
  that \<^verbatim>\<open>processChunks\<close> starts has written the third chunk again, the five files are
  numbered 0, 1, 2, 5 and 7; the third chunk fails the check of its size, and the results
  at 0 to 4 are the two texts and its placeholder. A piece whose identifier begins with a
  letter has no number at all.
\<close>

lemma repaired_pieces_lost_with_third_chunk:
  "map chunkIndex (repairedNames @ [''s1-chunk-002.m4a''])
     = [Some 0, Some 1, Some 5, Some 7, Some 2]
   \<and> promise (runPool
        \<lparr>statSync = (\<lambda>i. if i = 2 then Some 28000000 else Some 1000),
         createTranscription = (\<lambda>i a. Inr (''text'' @ showNat i))\<rparr>
        [WatcherTick [0, 1, 5, 7, 2], TranscriptionSettled 0, TranscriptionSettled 1,
         TranscriptionSettled 5, TranscriptionSettled 7, SplitEnd]
        (processChunks []))
     = ResolvedWith
         ''text0 text1 [Error: Chunk 3 failed to transcribe - Chunk file exceeds 25MB limit]''
   \<and> chunkIndex ''s1-chunk-a0b1c2d0.m4a'' = None"
  by code_simp

subsection \<open>A segment that fails every retry\<close>

lemma flakyService_fails:
  "validateChunk (statSync (flakyService k)) k = None
    \<and> (\<forall>a \<le> maxRetries. createTranscription (flakyService k) k a = Inl ''429 rate limit'')"
  by (simp add: flakyService_def validateChunk_def)

text \<open>
  On chunks numbered \<open>0, \<dots>, N - 1\<close> a chunk that fails every attempt does not fail
  the job. When the call for chunk \<open>k\<close> fails at the first attempt and at both retries,
  the job still completes once the split tool has ended and every call has returned: the
  promise is resolved, not rejected, and the final event is the \<^verbatim>\<open>complete\<close> event;
  the placeholder naming chunk \<open>k + 1\<close> with the message of the last error is recorded
  as the result of chunk \<open>k\<close>; the chunk is counted as processed; and the transcript is
  the results of the chunks before \<open>k\<close>, the placeholder, and the results of the chunks
  after \<open>k\<close>, in index order.
\<close>

lemma failed_segment_placeholder:
  assumes "list_all denseListing events"
    and "sF = runPool env events (processChunks written)"
    and "isSplittingComplete sF" and "inFlight sF = []"
    and "k < totalChunks sF"
    and "validateChunk (statSync env) k = None"
    and "\<forall>a \<le> maxRetries. createTranscription env k a = Inl (errors a)"
  shows "promise sF = ResolvedWith (joinWith '' ''
            (filter (\<lambda>t. t \<noteq> []) (map (terminalResult env) [0..<k])
             @ [errorPlaceholder k (errors maxRetries)]
             @ filter (\<lambda>t. t \<noteq> []) (map (terminalResult env) [Suc k..<totalChunks sF])))
       \<and> last (res sF) = CompleteEvent (joinWith '' ''
            (filter (\<lambda>t. t \<noteq> []) (map (terminalResult env) [0..<k])
             @ [errorPlaceholder k (errors maxRetries)]
             @ filter (\<lambda>t. t \<noteq> []) (map (terminalResult env) [Suc k..<totalChunks sF]))) 100
       \<and> transcriptionResults sF k = Some (errorPlaceholder k (errors maxRetries))
       \<and> processedChunks sF = totalChunks sF"
proof -
  have tk: "terminalResult env k = errorPlaceholder k (errors maxRetries)"
    using assms(6) transcribeWithRetry_exhausted [OF assms(7)]
    by (simp add: terminalResult_def)
  have ne: "errorPlaceholder k (errors maxRetries) \<noteq> []"
    by (simp add: errorPlaceholder_def)
  have "[0..<k + (totalChunks sF - k)] = [0..<k] @ [k..<k + (totalChunks sF - k)]"
    by (rule upt_add_eq_append) simp
  moreover have "[k..<totalChunks sF] = k # [Suc k..<totalChunks sF]"
    using assms(5) by (rule upt_conv_Cons)
  ultimately have "[0..<totalChunks sF] = [0..<k] @ [k] @ [Suc k..<totalChunks sF]"
    using assms(5) by simp
  then have "filter (\<lambda>t. t \<noteq> []) (map (terminalResult env) [0..<totalChunks sF])
      = filter (\<lambda>t. t \<noteq> []) (map (terminalResult env) [0..<k])
        @ [errorPlaceholder k (errors maxRetries)]
        @ filter (\<lambda>t. t \<noteq> []) (map (terminalResult env) [Suc k..<totalChunks sF])"
    using tk ne by simp
  with pool_completes [OF assms(1-4)] assms(5) tk show ?thesis
    by simp
qed

lemma failed_segment_placeholder_example:
  "list_all denseListing sampleEvents
   \<and> isSplittingComplete (runPool (flakyService 1) sampleEvents (processChunks []))
   \<and> inFlight (runPool (flakyService 1) sampleEvents (processChunks [])) = []
   \<and> promise (runPool (flakyService 1) sampleEvents (processChunks []))
       = ResolvedWith ''text0 [Error: Chunk 2 failed to transcribe - 429 rate limit] text2''
   \<and> last (res (runPool (flakyService 1) sampleEvents (processChunks [])))
       = CompleteEvent
           ''text0 [Error: Chunk 2 failed to transcribe - 429 rate limit] text2'' 100
   \<and> transcriptionResults (runPool (flakyService 1) sampleEvents (processChunks [])) 1
       = Some ''[Error: Chunk 2 failed to transcribe - 429 rate limit]''
   \<and> processedChunks (runPool (flakyService 1) sampleEvents (processChunks [])) = 3"
proof -
  let ?sF = "runPool (flakyService 1) sampleEvents (processChunks [])"
  have dense: "list_all denseListing sampleEvents" by code_simp
  have ended: "isSplittingComplete ?sF" by code_simp
  have idle: "inFlight ?sF = []" by code_simp
  have three: "totalChunks ?sF = 3" by code_simp
  then have k: "1 < totalChunks ?sF" by simp
  have valid: "validateChunk (statSync (flakyService 1)) 1 = None"
    and fails: "\<forall>a \<le> maxRetries. createTranscription (flakyService 1) 1 a
        = Inl ((\<lambda>a. ''429 rate limit'') a)"
    using flakyService_fails [of 1] by simp_all
  have joined: "joinWith '' ''
      (filter (\<lambda>t. t \<noteq> []) (map (terminalResult (flakyService 1)) [0..<1])
       @ [errorPlaceholder 1 ''429 rate limit'']
       @ filter (\<lambda>t. t \<noteq> []) (map (terminalResult (flakyService 1)) [Suc 1..<totalChunks ?sF]))
      = ''text0 [Error: Chunk 2 failed to transcribe - 429 rate limit] text2''"
    by code_simp
  have placeholder: "errorPlaceholder 1 ''429 rate limit''
      = ''[Error: Chunk 2 failed to transcribe - 429 rate limit]''"
    by code_simp
  note result = failed_segment_placeholder [OF dense refl ended idle k valid fails,
      unfolded joined, unfolded placeholder three]
  from dense ended idle result show ?thesis by blast
qed

text \<open>
  Claim C4. When one chunk fails every attempt the job is to complete with the
  placeholder at that chunk's position and the texts of all other chunks in order. In the
  sample session, whose files are numbered 0, 1, 5 and 7, the job completes, but
  \<^verbatim>\<open>checkCompletion\<close> collects the results at 0, 1, 2 and 3 only. When the calls for
  chunk 1 fail, the transcript is \<open>text0\<close> and the placeholder: the texts of chunks 5
  and 7 are stored and left out. When the calls for chunk 5 fail, the placeholder is
  stored under 5 and the chunk is counted as processed, and the transcript is
  \<open>text0 text1\<close>: it has neither the placeholder nor the text of chunk 7.
\<close>

theorem sparse_numbers_lose_placeholder:
  "map chunkIndex repairedNames = [Some 0, Some 1, Some 5, Some 7]
   \<and> transcribeWithRetry (createTranscription (flakyService 1) 1) 0 = Inl ''429 rate limit''
   \<and> promise (runPool (flakyService 1) repairedEvents (processChunks []))
       = ResolvedWith ''text0 [Error: Chunk 2 failed to transcribe - 429 rate limit]''
   \<and> map (transcriptionResults (runPool (flakyService 1) repairedEvents (processChunks [])))
        [0, 1, 5, 7]
       = [Some ''text0'', Some ''[Error: Chunk 2 failed to transcribe - 429 rate limit]'',
          Some ''text5'', Some ''text7'']
   \<and> transcribeWithRetry (createTranscription (flakyService 5) 5) 0 = Inl ''429 rate limit''
   \<and> promise (runPool (flakyService 5) repairedEvents (processChunks []))
       = ResolvedWith ''text0 text1''
   \<and> last (res (runPool (flakyService 5) repairedEvents (processChunks [])))
       = CompleteEvent ''text0 text1'' 100
   \<and> map (transcriptionResults (runPool (flakyService 5) repairedEvents (processChunks [])))
        [0, 1, 5, 7]
       = [Some ''text0'', Some ''text1'',
          Some ''[Error: Chunk 6 failed to transcribe - 429 rate limit]'', Some ''text7'']
   \<and> processedChunks (runPool (flakyService 5) repairedEvents (processChunks [])) = 4
   \<and> totalChunks (runPool (flakyService 5) repairedEvents (processChunks [])) = 4"
  by code_simp
end
